theory Spec2Isabelle
  imports Main "HOL-Library.AList"
begin

section \<open>Python values, exceptions and dictionaries\<close>

text \<open>
  The module \<^verbatim>\<open>postgres_composite_types/__init__.py\<close> converts between three shapes of value
  (a dict, a tuple, an instance of a declared composite type), builds the metadata of a
  declared type in a metaclass, and drives two external systems: the database (through the
  schema editor and the psycopg2 driver) and Django's signals.

  Exceptions are values of \<open>error\<close>; a function that may raise returns \<open>error + 'a\<close> with
  \<open>Inl\<close> for the exception. \<open>DatabaseError\<close> and \<open>OtherException\<close> stand for the exception
  classes the module never names (the string is the class name). \<open>NotModelled\<close> is not a
  Python exception: it marks the few places where the outcome depends on parts of the
  Python object model that this development does not describe (attributes whose names begin
  with two underscores, attributes found on the class rather than on the instance); no
  theorem below draws a conclusion from it.
\<close>

datatype error =
    TypeError
  | RuntimeError
  | AttributeError
  | ProgrammingError
  | DatabaseError string
  | OtherException string
  | NotModelled

type_synonym 'a result = "error + 'a"

text \<open>
  The Python values the conversions look at. A dict is an association list in insertion
  order (an \<^verbatim>\<open>OrderedDict\<close> is a dict); its keys are arbitrary values. An instance carries
  the name of its class, which stands for the class object, and its attribute dictionary.
  Inheritance between declared types is not modelled, so \<^verbatim>\<open>isinstance(value, cls)\<close> is
  equality of class names.
\<close>

datatype pyval =
    PNone
  | PStr string
  | PInt int
  | PTuple "pyval list"
  | PDict "(pyval \<times> pyval) list"
  | PInst string "(string \<times> pyval) list"

text \<open>\<^verbatim>\<open>value.get(name)\<close> on a dict: the value stored under the key, \<^verbatim>\<open>None\<close> when absent.\<close>

definition dict_get :: "(pyval \<times> pyval) list \<Rightarrow> string \<Rightarrow> pyval" where
  "dict_get d name = (case map_of d (PStr name) of None \<Rightarrow> PNone | Some v \<Rightarrow> v)"

fun is_str :: "pyval \<Rightarrow> bool" where
  "is_str (PStr _) = True"
| "is_str _ = False"

fun str_of :: "pyval \<Rightarrow> string" where
  "str_of (PStr s) = s"
| "str_of _ = []"

text \<open>
  Names that begin with two underscores: among them are the names of the Python object
  model (\<^verbatim>\<open>__class__\<close>, \<^verbatim>\<open>__dict__\<close>, \<^verbatim>\<open>__weakref__\<close>, the methods \<^verbatim>\<open>__init__\<close>, \<^verbatim>\<open>__to_tuple__\<close>, ...),
  under which reading or storing an attribute does more than look into the instance
  dictionary.
\<close>

definition special_name :: "string \<Rightarrow> bool" where
  "special_name name = (take 2 name = ''__'')"

section \<open>Fields, connections and the metadata of a declared type\<close>

text \<open>
  \<^verbatim>\<open>isinstance(connection, PostgresDatabaseWrapper)\<close> is the only thing the module asks of a
  connection.
\<close>

record connection =
  conn_name :: string
  is_postgres :: bool

text \<open>
  A Django \<^verbatim>\<open>models.Field\<close> is an object of the host framework. The module calls two of its
  methods and tests its class, so a field is the record of these: whether it is a
  \<^verbatim>\<open>RelatedField\<close>, its \<^verbatim>\<open>db_type(connection)\<close> (Django returns a string or \<^verbatim>\<open>None\<close>) and
  its \<^verbatim>\<open>get_prep_value(value)\<close>.
\<close>

record model_field =
  is_related :: bool
  field_db_type :: "connection \<Rightarrow> string option result"
  field_get_prep_value :: "pyval \<Rightarrow> pyval result"

text \<open>
  The \<^verbatim>\<open>Meta\<close> object of a declared type after the metaclass has filled it in:
  \<^verbatim>\<open>Meta.db_type\<close>, \<^verbatim>\<open>Meta.fields\<close> and \<^verbatim>\<open>Meta.model\<close>. The class \<^verbatim>\<open>Meta.model\<close> is given by its
  name and by the names of the attributes its class dictionary holds besides \<^verbatim>\<open>_meta\<close>;
  its \<^verbatim>\<open>_meta\<close> is this very object (lines 214 and 216 of the source).
\<close>

record meta =
  db_type :: string
  meta_fields :: "(string \<times> model_field) list"
  model_name :: string
  model_attrs :: "string list"

section \<open>Instances: attribute access\<close>

text \<open>
  \<^verbatim>\<open>setattr(self, name, value)\<close> on an instance of a declared type stores into the instance
  dictionary. It keeps the position of a name already bound, as a Python dict does.
\<close>

definition py_setattr :: "(string \<times> pyval) list \<Rightarrow> string \<Rightarrow> pyval \<Rightarrow> (string \<times> pyval) list result" where
  "py_setattr attrs name v =
     (if special_name name then Inl NotModelled else Inr (AList.update name v attrs))"

text \<open>
  \<^verbatim>\<open>getattr(self, name)\<close>: the instance dictionary first. A name it does not bind is looked
  up on the class, and raises \<^verbatim>\<open>AttributeError\<close> when the class does not have it either.
\<close>

definition py_getattr :: "meta \<Rightarrow> (string \<times> pyval) list \<Rightarrow> string \<Rightarrow> pyval result" where
  "py_getattr m attrs name =
     (if special_name name then Inl NotModelled
      else case map_of attrs name of
             Some v \<Rightarrow> Inr v
           | None \<Rightarrow> if name = ''_meta'' \<or> name \<in> set (model_attrs m)
                     then Inl NotModelled else Inl AttributeError)"

text \<open>
  \<^verbatim>\<open>self._meta.fields\<close>. \<^verbatim>\<open>_meta\<close> is a plain class attribute, so an instance attribute of
  that name hides it; \<^verbatim>\<open>None\<close>, strings, integers, tuples and dicts have no attribute
  \<^verbatim>\<open>fields\<close>.
\<close>

definition self_meta_fields :: "meta \<Rightarrow> (string \<times> pyval) list \<Rightarrow> (string \<times> model_field) list result" where
  "self_meta_fields m attrs =
     (case map_of attrs ''_meta'' of
        None \<Rightarrow> Inr (meta_fields m)
      | Some (PInst c a) \<Rightarrow> Inl NotModelled
      | Some v \<Rightarrow> Inl AttributeError)"

section \<open>\<^verbatim>\<open>CompositeType\<close>: construction and flattening\<close>

text \<open>A \<^verbatim>\<open>for\<close> loop of \<^verbatim>\<open>setattr\<close> calls; the first exception ends it.\<close>

fun setattr_each :: "(string \<times> pyval) list \<Rightarrow> (string \<times> pyval) list \<Rightarrow> (string \<times> pyval) list result" where
  "setattr_each [] attrs = Inr attrs"
| "setattr_each ((name, v) # rest) attrs =
     (case py_setattr attrs name v of
        Inl e \<Rightarrow> Inl e
      | Inr attrs' \<Rightarrow> setattr_each rest attrs')"

text \<open>
  \<^verbatim>\<open>CompositeType.__init__(self, *args, **kwargs)\<close> (lines 277-290), on the fresh instance
  whose dictionary is empty. \<^verbatim>\<open>self._meta.fields\<close> is read once for the first loop and once
  more for the \<^verbatim>\<open>zip\<close>.
\<close>

definition CompositeType_init :: "meta \<Rightarrow> pyval list \<Rightarrow> (string \<times> pyval) list \<Rightarrow> (string \<times> pyval) list result" where
  "CompositeType_init m args kwargs =
     (if args \<noteq> [] \<and> kwargs \<noteq> [] then Inl RuntimeError
      else case self_meta_fields m [] of
        Inl e \<Rightarrow> Inl e
      | Inr fs \<Rightarrow>
     (case setattr_each (map (\<lambda>(name, _). (name, PNone)) fs) [] of
        Inl e \<Rightarrow> Inl e
      | Inr blank \<Rightarrow>
     (case self_meta_fields m blank of
        Inl e \<Rightarrow> Inl e
      | Inr fs' \<Rightarrow>
     (case setattr_each (map (\<lambda>((name, _), arg). (name, arg)) (zip fs' args)) blank of
        Inl e \<Rightarrow> Inl e
      | Inr unpacked \<Rightarrow> setattr_each kwargs unpacked))))"

text \<open>
  The call \<^verbatim>\<open>Meta.model(*args, **kw)\<close>. Python refuses a \<^verbatim>\<open>**\<close> mapping with a key that is
  not a string, and a keyword \<^verbatim>\<open>self\<close> collides with the first parameter of \<^verbatim>\<open>__init__\<close>;
  both raise \<^verbatim>\<open>TypeError\<close> before the body runs.
\<close>

definition call_model :: "meta \<Rightarrow> pyval list \<Rightarrow> (pyval \<times> pyval) list \<Rightarrow> pyval result" where
  "call_model m args kw =
     (if \<not> list_all (\<lambda>(k, _). is_str k) kw then Inl TypeError
      else if PStr ''self'' \<in> set (map fst kw) then Inl TypeError
      else case CompositeType_init m args (map (\<lambda>(k, v). (str_of k, v)) kw) of
             Inl e \<Rightarrow> Inl e
           | Inr attrs \<Rightarrow> Inr (PInst (model_name m) attrs))"

text \<open>
  The generator of \<^verbatim>\<open>__to_tuple__\<close> (lines 298-302): for each declared field in order,
  \<^verbatim>\<open>field.get_prep_value(getattr(self, name))\<close>.
\<close>

fun prep_attrs :: "meta \<Rightarrow> (string \<times> pyval) list \<Rightarrow> (string \<times> model_field) list \<Rightarrow> pyval list result" where
  "prep_attrs m attrs [] = Inr []"
| "prep_attrs m attrs ((name, field) # rest) =
     (case py_getattr m attrs name of
        Inl e \<Rightarrow> Inl e
      | Inr v \<Rightarrow>
     (case field_get_prep_value field v of
        Inl e \<Rightarrow> Inl e
      | Inr p \<Rightarrow>
     (case prep_attrs m attrs rest of
        Inl e \<Rightarrow> Inl e
      | Inr ps \<Rightarrow> Inr (p # ps))))"

definition to_tuple :: "meta \<Rightarrow> (string \<times> pyval) list \<Rightarrow> pyval result" where
  "to_tuple m attrs =
     (case self_meta_fields m attrs of
        Inl e \<Rightarrow> Inl e
      | Inr fs \<Rightarrow>
     (case prep_attrs m attrs fs of
        Inl e \<Rightarrow> Inl e
      | Inr ps \<Rightarrow> Inr (PTuple ps)))"

section \<open>\<^verbatim>\<open>BaseField\<close>: the value coercion adapter\<close>

text \<open>
  The dict branch of \<^verbatim>\<open>get_prep_value\<close> (lines 96-101):
  \<^verbatim>\<open>field.get_prep_value(value.get(name)) for name, field in self.Meta.fields\<close>.
\<close>

fun prep_dict :: "(pyval \<times> pyval) list \<Rightarrow> (string \<times> model_field) list \<Rightarrow> pyval list result" where
  "prep_dict d [] = Inr []"
| "prep_dict d ((name, field) # rest) =
     (case field_get_prep_value field (dict_get d name) of
        Inl e \<Rightarrow> Inl e
      | Inr p \<Rightarrow>
     (case prep_dict d rest of
        Inl e \<Rightarrow> Inl e
      | Inr ps \<Rightarrow> Inr (p # ps)))"

text \<open>
  \<^verbatim>\<open>BaseField.get_prep_value\<close> (lines 92-110). \<^verbatim>\<open>value.__to_tuple__()\<close> is the method of the
  class unless the instance dictionary binds that name.
\<close>

definition BaseField_get_prep_value :: "meta \<Rightarrow> pyval \<Rightarrow> pyval result" where
  "BaseField_get_prep_value m v =
     (case v of
        PDict d \<Rightarrow>
          (case prep_dict d (meta_fields m) of
             Inl e \<Rightarrow> Inl e
           | Inr ps \<Rightarrow> Inr (PTuple ps))
      | PInst c attrs \<Rightarrow>
          if c = model_name m
          then (if map_of attrs ''__to_tuple__'' \<noteq> None then Inl NotModelled
                else to_tuple m attrs)
          else Inr v
      | _ \<Rightarrow> Inr v)"

text \<open>\<^verbatim>\<open>BaseField.to_python\<close> (lines 67-77).\<close>

definition BaseField_to_python :: "meta \<Rightarrow> pyval \<Rightarrow> pyval result" where
  "BaseField_to_python m v =
     (case v of
        PDict d \<Rightarrow> call_model m [] d
      | _ \<Rightarrow> Inr v)"

text \<open>
  \<^verbatim>\<open>BaseField.from_db_value\<close> (lines 79-90); \<^verbatim>\<open>expression\<close>, \<^verbatim>\<open>connection\<close> and \<^verbatim>\<open>context\<close> are
  not used by the body.
\<close>

definition BaseField_from_db_value :: "meta \<Rightarrow> pyval \<Rightarrow> pyval result" where
  "BaseField_from_db_value m v =
     (case v of
        PTuple xs \<Rightarrow> call_model m xs []
      | _ \<Rightarrow> Inr v)"

text \<open>\<^verbatim>\<open>BaseField.db_type\<close> (lines 58-65).\<close>

definition BaseField_db_type :: "meta \<Rightarrow> connection \<Rightarrow> string option result" where
  "BaseField_db_type m conn =
     (if \<not> is_postgres conn then Inl RuntimeError else Inr (Some (db_type m)))"

text \<open>
  An instance of the class \<^verbatim>\<open>Field\<close> that the metaclass creates for a declared type (line
  204): a \<^verbatim>\<open>models.Field\<close>, not a related one, whose methods are the ones above. It can be
  declared as a field of another composite type.
\<close>

definition BaseField :: "meta \<Rightarrow> model_field" where
  "BaseField m =
     \<lparr> is_related = False,
       field_db_type = BaseField_db_type m,
       field_get_prep_value = BaseField_get_prep_value m \<rparr>"

section \<open>\<^verbatim>\<open>CompositeTypeMeta\<close>: the declaration-time type builder\<close>

text \<open>
  What a class body binds a name to: a \<^verbatim>\<open>models.Field\<close>, or any other object, of which
  only its attribute \<^verbatim>\<open>db_type\<close> matters (a string, or absent). The nested class \<^verbatim>\<open>Meta\<close> is
  such an object. Class bodies that define methods or descriptors of their own are outside
  the model.
\<close>

datatype attr = AField model_field | AObject "string option"

text \<open>
  \<^verbatim>\<open>__prepare__\<close> (lines 168-176) returns an \<^verbatim>\<open>OrderedDict\<close>, which the assignments of the
  class body fill in order: a name assigned twice keeps its first position and its last
  value. The entries \<^verbatim>\<open>__module__\<close> and \<^verbatim>\<open>__qualname__\<close> that Python adds by itself are strings,
  not fields, and are left out.
\<close>

definition class_namespace :: "(string \<times> attr) list \<Rightarrow> (string \<times> attr) list" where
  "class_namespace body = foldl (\<lambda>ns (name, v). AList.update name v ns) [] body"

text \<open>
  The loop of lines 185-192 over \<^verbatim>\<open>attrs.copy().items()\<close>. \<^verbatim>\<open>attrs.pop(field_name)\<close> returns
  the object just tested, since the copy is shallow. \<^verbatim>\<open>field.set_attributes_from_name\<close>
  (Django) records the name inside the field and changes neither of the two methods the
  module calls.
\<close>

fun collect_fields ::
  "(string \<times> attr) list \<Rightarrow> (string \<times> attr) list \<Rightarrow> (string \<times> model_field) list
     \<Rightarrow> ((string \<times> attr) list \<times> (string \<times> model_field) list) result" where
  "collect_fields [] attrs fs = Inr (attrs, fs)"
| "collect_fields ((field_name, AField field) # items) attrs fs =
     (if is_related field then Inl TypeError
      else collect_fields items (AList.delete field_name attrs) (fs @ [(field_name, field)]))"
| "collect_fields ((field_name, AObject _) # items) attrs fs = collect_fields items attrs fs"

text \<open>
  The class object that \<^verbatim>\<open>__new__\<close> returns: either a class built by \<^verbatim>\<open>type.__new__\<close> alone,
  with the namespace untouched and no metadata, or a declared composite type, given by
  its filled-in \<^verbatim>\<open>Meta\<close>.
\<close>

datatype new_class = Undeclared string "(string \<times> attr) list" | Composite meta

text \<open>
  \<^verbatim>\<open>CompositeTypeMeta.__new__\<close> (lines 178-218). \<^verbatim>\<open>attrs.pop('Meta', object())\<close> yields a bare
  object, which has no \<^verbatim>\<open>db_type\<close>, when the body has no \<^verbatim>\<open>Meta\<close>. After the loop no field is
  left in \<^verbatim>\<open>attrs\<close>, so the \<^verbatim>\<open>AField\<close> case below is never reached. \<^verbatim>\<open>bases\<close> is only handed
  on to \<^verbatim>\<open>type.__new__\<close>.
\<close>

definition CompositeTypeMeta_new :: "string \<Rightarrow> string list \<Rightarrow> (string \<times> attr) list \<Rightarrow> new_class result" where
  "CompositeTypeMeta_new name bases attrs =
     (if name = ''CompositeType'' then Inr (Undeclared name attrs)
      else case collect_fields attrs attrs [] of
        Inl e \<Rightarrow> Inl e
      | Inr (attrs', fs) \<Rightarrow>
     (case (case map_of attrs' ''Meta'' of None \<Rightarrow> AObject None | Some meta_obj \<Rightarrow> meta_obj) of
        AField _ \<Rightarrow> Inl NotModelled
      | AObject None \<Rightarrow> Inl TypeError
      | AObject (Some t) \<Rightarrow>
          Inr (Composite
            \<lparr> db_type = t,
              meta_fields = fs,
              model_name = name,
              model_attrs =
                map fst (AList.update ''Operation'' (AObject None)
                          (AList.update ''Field'' (AObject None)
                            (AList.delete ''Meta'' attrs'))) \<rparr>)))"

section \<open>The world outside: database, driver, signals, log\<close>

text \<open>
  The calls that leave the module, in the order they are made: \<^verbatim>\<open>schema_editor.execute(sql)\<close>
  on a connection; the driver registration inside \<^verbatim>\<open>cls.register_composite(connection)\<close>
  (class name, database type name, connection); \<^verbatim>\<open>composite_type_created.send(model,
  connection=...)\<close>; \<^verbatim>\<open>LOGGER.warning(message)\<close>. The \<^verbatim>\<open>LOGGER.debug\<close> lines of \<^verbatim>\<open>BaseField\<close> are
  left out.
\<close>

datatype event =
    Execute string string
  | RegisterComposite string string string
  | TypeCreated string string
  | LogWarning string

text \<open>
  What an external call raises, if anything, given the calls made before it. Every function
  below takes the environment as a parameter, so a theorem without a hypothesis on it holds
  for every behaviour of the database, the driver and the subscribers.
\<close>

type_synonym environment = "event list \<Rightarrow> event \<Rightarrow> error option"

text \<open>
  The key under which Django's \<^verbatim>\<open>Signal\<close> files a receiver: the \<^verbatim>\<open>dispatch_uid\<close> when it is
  truthy, the identity of the receiver otherwise (here: of the class whose bound method
  \<^verbatim>\<open>database_connected\<close> it is).
\<close>

datatype receiver_key = DispatchUid string | ReceiverId string

record world =
  receivers :: "(receiver_key \<times> meta) list"
  trace :: "event list"

definition external_call :: "environment \<Rightarrow> event \<Rightarrow> world \<Rightarrow> unit result \<times> world" where
  "external_call env ev w =
     ((case env (trace w) ev of None \<Rightarrow> Inr () | Some e \<Rightarrow> Inl e),
      w\<lparr>trace := trace w @ [ev]\<rparr>)"

definition lookup_key :: "meta \<Rightarrow> string \<Rightarrow> receiver_key" where
  "lookup_key m dispatch_uid =
     (if dispatch_uid \<noteq> [] then DispatchUid dispatch_uid else ReceiverId (model_name m))"

text \<open>
  \<^verbatim>\<open>Signal.connect\<close> and \<^verbatim>\<open>Signal.disconnect\<close> of Django, for the receiver
  \<^verbatim>\<open>cls.database_connected\<close> and no sender: \<^verbatim>\<open>connect\<close> appends the receiver unless its key is
  already filed; \<^verbatim>\<open>disconnect\<close> deletes the first entry with the key.
\<close>

definition Signal_connect :: "meta \<Rightarrow> string \<Rightarrow> world \<Rightarrow> world" where
  "Signal_connect m dispatch_uid w =
     (if lookup_key m dispatch_uid \<in> set (map fst (receivers w)) then w
      else w\<lparr>receivers := receivers w @ [(lookup_key m dispatch_uid, m)]\<rparr>)"

fun delete_first :: "receiver_key \<Rightarrow> (receiver_key \<times> meta) list \<Rightarrow> (receiver_key \<times> meta) list" where
  "delete_first k [] = []"
| "delete_first k ((k', m) # rs) = (if k' = k then rs else (k', m) # delete_first k rs)"

definition Signal_disconnect :: "meta \<Rightarrow> string \<Rightarrow> world \<Rightarrow> world" where
  "Signal_disconnect m dispatch_uid w =
     w\<lparr>receivers := delete_first (lookup_key m dispatch_uid) (receivers w)\<rparr>"

text \<open>
  \<^verbatim>\<open>CompositeTypeMeta.__init__\<close> (lines 220-227). A class that \<^verbatim>\<open>__new__\<close> left undeclared is
  named \<^verbatim>\<open>CompositeType\<close>, for which \<^verbatim>\<open>__init__\<close> returns at once.
\<close>

fun CompositeTypeMeta_init :: "new_class \<Rightarrow> world \<Rightarrow> world" where
  "CompositeTypeMeta_init (Undeclared name attrs) w = w"
| "CompositeTypeMeta_init (Composite m) w =
     (if model_name m = ''CompositeType'' then w else Signal_connect m (db_type m) w)"

text \<open>
  A class statement \<^verbatim>\<open>class name(bases, metaclass=CompositeTypeMeta): body\<close>: the namespace,
  then \<^verbatim>\<open>__new__\<close>, then \<^verbatim>\<open>__init__\<close> on the class it returned.
\<close>

definition class_statement ::
  "string \<Rightarrow> string list \<Rightarrow> (string \<times> attr) list \<Rightarrow> world \<Rightarrow> new_class result \<times> world" where
  "class_statement name bases body w =
     (case CompositeTypeMeta_new name bases (class_namespace body) of
        Inl e \<Rightarrow> (Inl e, w)
      | Inr cls \<Rightarrow> (Inr cls, CompositeTypeMeta_init cls w))"

text \<open>
  \<^verbatim>\<open>CompositeTypeMeta.register_composite\<close> (lines 251-262): one call into the driver, inside
  \<^verbatim>\<open>connection.temporary_connection()\<close>.
\<close>

definition register_composite :: "environment \<Rightarrow> meta \<Rightarrow> connection \<Rightarrow> world \<Rightarrow> unit result \<times> world" where
  "register_composite env m conn w =
     external_call env (RegisterComposite (model_name m) (db_type m) (conn_name conn)) w"

definition warning_text :: string where
  "warning_text =
     ''Failed to register composite %s. This might be because the migration to register it has not run yet''"

text \<open>
  \<^verbatim>\<open>CompositeTypeMeta.database_connected\<close> (lines 229-249). Only \<^verbatim>\<open>ProgrammingError\<close> is caught;
  any other exception leaves the function before the \<^verbatim>\<open>disconnect\<close>.
\<close>

definition database_connected :: "environment \<Rightarrow> meta \<Rightarrow> connection \<Rightarrow> world \<Rightarrow> unit result \<times> world" where
  "database_connected env m conn w =
     (if is_postgres conn then
        (case register_composite env m conn w of
           (Inr _, w') \<Rightarrow> (Inr (), Signal_disconnect m (db_type m) w')
         | (Inl ProgrammingError, w') \<Rightarrow>
             (Inr (), Signal_disconnect m (db_type m) (w'\<lparr>trace := trace w' @ [LogWarning warning_text]\<rparr>))
         | (Inl e, w') \<Rightarrow> (Inl e, w'))
      else (Inr (), Signal_disconnect m (db_type m) w))"

text \<open>
  Django sends \<^verbatim>\<open>connection_created\<close> for each new connection: \<^verbatim>\<open>Signal.send\<close> calls the
  receivers filed at that moment, in order, and lets an exception of a receiver through.
\<close>

fun call_receivers ::
  "environment \<Rightarrow> connection \<Rightarrow> (receiver_key \<times> meta) list \<Rightarrow> world \<Rightarrow> unit result \<times> world" where
  "call_receivers env conn [] w = (Inr (), w)"
| "call_receivers env conn ((k, m) # rest) w =
     (case database_connected env m conn w of
        (Inl e, w') \<Rightarrow> (Inl e, w')
      | (Inr _, w') \<Rightarrow> call_receivers env conn rest w')"

definition connection_created_send :: "environment \<Rightarrow> connection \<Rightarrow> world \<Rightarrow> unit result \<times> world" where
  "connection_created_send env conn w = call_receivers env conn (receivers w) w"

text \<open>
  A run of the process: one new connection after the other. Whoever opened a connection may
  see an exception; the process and its state go on.
\<close>

fun new_connections :: "environment \<Rightarrow> connection list \<Rightarrow> world \<Rightarrow> world" where
  "new_connections env [] w = w"
| "new_connections env (conn # conns) w =
     new_connections env conns (snd (connection_created_send env conn w))"

section \<open>\<^verbatim>\<open>BaseOperation\<close>: the migration operation\<close>

text \<open>\<^verbatim>\<open>'%s' % x\<close> for a string or \<^verbatim>\<open>None\<close>, and \<^verbatim>\<open>sep.join(parts)\<close>.\<close>

fun percent_s :: "string option \<Rightarrow> string" where
  "percent_s None = ''None''"
| "percent_s (Some s) = s"

fun join :: "string \<Rightarrow> string list \<Rightarrow> string" where
  "join sep [] = []"
| "join sep [x] = x"
| "join sep (x # y # ys) = x @ sep @ join sep (y # ys)"

text \<open>
  The list comprehension of lines 144-147:
  \<^verbatim>\<open>'%s %s' % (name, field.db_type(schema_editor.connection))\<close> for each declared field.
\<close>

fun column_definitions :: "connection \<Rightarrow> (string \<times> model_field) list \<Rightarrow> string list result" where
  "column_definitions conn [] = Inr []"
| "column_definitions conn ((name, field) # rest) =
     (case field_db_type field conn of
        Inl e \<Rightarrow> Inl e
      | Inr t \<Rightarrow>
     (case column_definitions conn rest of
        Inl e \<Rightarrow> Inl e
      | Inr cols \<Rightarrow> Inr ((name @ '' '' @ percent_s t) # cols)))"

definition create_type_sql :: "meta \<Rightarrow> string list \<Rightarrow> string" where
  "create_type_sql m cols =
     join '' '' [''CREATE TYPE'', db_type m, ''AS ('' @ join '', '' cols @ '')'']"

text \<open>\<^verbatim>\<open>BaseOperation.database_forwards\<close> (lines 141-158).\<close>

definition database_forwards :: "environment \<Rightarrow> meta \<Rightarrow> connection \<Rightarrow> world \<Rightarrow> unit result \<times> world" where
  "database_forwards env m conn w =
     (case column_definitions conn (meta_fields m) of
        Inl e \<Rightarrow> (Inl e, w)
      | Inr cols \<Rightarrow>
     (case external_call env (Execute (conn_name conn) (create_type_sql m cols)) w of
        (Inl e, w1) \<Rightarrow> (Inl e, w1)
      | (Inr _, w1) \<Rightarrow>
     (case register_composite env m conn w1 of
        (Inl e, w2) \<Rightarrow> (Inl e, w2)
      | (Inr _, w2) \<Rightarrow>
          external_call env (TypeCreated (model_name m) (conn_name conn)) w2)))"

text \<open>\<^verbatim>\<open>BaseOperation.database_backwards\<close> (lines 160-162).\<close>

definition database_backwards :: "environment \<Rightarrow> meta \<Rightarrow> connection \<Rightarrow> world \<Rightarrow> unit result \<times> world" where
  "database_backwards env m conn w =
     external_call env (Execute (conn_name conn) (''DROP TYPE '' @ db_type m)) w"

section \<open>Notions used to state the properties\<close>

text \<open>
  An ordinary attribute name: not one of the object model's names, and not \<^verbatim>\<open>_meta\<close>, the
  class attribute through which \<^verbatim>\<open>CompositeType\<close> reaches its own metadata.
\<close>

definition plain_name :: "string \<Rightarrow> bool" where
  "plain_name name = (\<not> special_name name \<and> name \<noteq> ''_meta'')"

definition plain_fields :: "meta \<Rightarrow> bool" where
  "plain_fields m = list_all (\<lambda>(name, _). plain_name name) (meta_fields m)"

text \<open>
  Keyword arguments that reach the body of \<^verbatim>\<open>__init__\<close> and are stored: string keys, none of
  them \<^verbatim>\<open>self\<close> or a name of the object model.
\<close>

definition plain_keywords :: "(pyval \<times> pyval) list \<Rightarrow> bool" where
  "plain_keywords kw =
     list_all (\<lambda>(k, _). is_str k \<and> \<not> special_name (str_of k) \<and> str_of k \<noteq> ''self'') kw"

text \<open>
  A dict, which has no key twice, whose keys are ordinary attribute names other than
  \<^verbatim>\<open>self\<close>.
\<close>

definition plain_mapping :: "(pyval \<times> pyval) list \<Rightarrow> bool" where
  "plain_mapping d =
     (distinct (map fst d) \<and>
      list_all (\<lambda>(k, _). is_str k \<and> plain_name (str_of k) \<and> str_of k \<noteq> ''self'') d)"

text \<open>
  The specification's description of the storage tuple of a mapping: each declared field's
  prepare-value function applied directly to the mapping's value for that field's name, in
  declared field order; the first exception, if one is raised.
\<close>

fun first_error :: "'a result list \<Rightarrow> 'a list result" where
  "first_error [] = Inr []"
| "first_error (Inl e # rs) = Inl e"
| "first_error (Inr x # rs) = (case first_error rs of Inl e \<Rightarrow> Inl e | Inr xs \<Rightarrow> Inr (x # xs))"

definition prepared_directly :: "meta \<Rightarrow> (pyval \<times> pyval) list \<Rightarrow> pyval result" where
  "prepared_directly m d =
     (case first_error (map (\<lambda>(name, field). field_get_prep_value field (dict_get d name)) (meta_fields m)) of
        Inl e \<Rightarrow> Inl e
      | Inr ps \<Rightarrow> Inr (PTuple ps))"

text \<open>
  The database type named in the \<^verbatim>\<open>Meta\<close> of a class body, if it names one: the namespace
  binds \<^verbatim>\<open>Meta\<close> to an object that is not a field and has a \<^verbatim>\<open>db_type\<close>.
\<close>

definition declared_db_type :: "(string \<times> attr) list \<Rightarrow> string option" where
  "declared_db_type body =
     (case map_of (class_namespace body) ''Meta'' of
        Some (AObject t) \<Rightarrow> t
      | _ \<Rightarrow> None)"

definition declares_related_field :: "(string \<times> attr) list \<Rightarrow> bool" where
  "declares_related_field body =
     list_ex (\<lambda>(name, v). case v of AField field \<Rightarrow> is_related field | AObject _ \<Rightarrow> False)
       (class_namespace body)"

text \<open>
  The registration attempts of a declared type in a trace, and the statements executed.
\<close>

definition registrations :: "meta \<Rightarrow> event list \<Rightarrow> event list" where
  "registrations m evs =
     filter (\<lambda>ev. case ev of
                    RegisterComposite c t n \<Rightarrow> c = model_name m \<and> t = db_type m
                  | _ \<Rightarrow> False) evs"

definition statements :: "event list \<Rightarrow> event list" where
  "statements evs = filter (\<lambda>ev. case ev of Execute n sql \<Rightarrow> True | _ \<Rightarrow> False) evs"

text \<open>
  The receivers list as \<^verbatim>\<open>CompositeTypeMeta.__init__\<close> builds it: no key twice, each hook
  filed under the key of its own class.
\<close>

definition hooks_filed :: "(receiver_key \<times> meta) list \<Rightarrow> bool" where
  "hooks_filed rs =
     (distinct (map fst rs) \<and> list_all (\<lambda>(k, m). k = lookup_key m (db_type m)) rs)"

text \<open>
  An environment in which an external call either succeeds or raises the driver's
  \<^verbatim>\<open>ProgrammingError\<close>.
\<close>

definition only_programming_errors :: "environment \<Rightarrow> bool" where
  "only_programming_errors env = (\<forall>h ev. env h ev = None \<or> env h ev = Some ProgrammingError)"

section \<open>Example declarations\<close>

text \<open>
  A field whose column type is \<open>t\<close> on every connection and whose \<^verbatim>\<open>get_prep_value\<close> is the one
  of Django's base class \<^verbatim>\<open>Field\<close>, which returns the value as it is. A related field.
\<close>

definition column_field :: "string \<Rightarrow> model_field" where
  "column_field t =
     \<lparr> is_related = False,
       field_db_type = (\<lambda>conn. Inr (Some t)),
       field_get_prep_value = (\<lambda>v. Inr v) \<rparr>"

definition foreign_key :: model_field where
  "foreign_key =
     \<lparr> is_related = True,
       field_db_type = (\<lambda>conn. Inr (Some ''integer'')),
       field_get_prep_value = (\<lambda>v. Inr v) \<rparr>"

text \<open>
  \<^verbatim>\<open>class Address(CompositeType): street = ...; city = ...; class Meta: db_type = 'address'\<close>
  and the \<^verbatim>\<open>Meta\<close> the metaclass makes of it.
\<close>

definition address_body :: "(string \<times> attr) list" where
  "address_body =
     [(''street'', AField (column_field ''text'')),
      (''city'', AField (column_field ''text'')),
      (''Meta'', AObject (Some ''address''))]"

definition address :: meta where
  "address =
     \<lparr> db_type = ''address'',
       meta_fields = [(''street'', column_field ''text''), (''city'', column_field ''text'')],
       model_name = ''Address'',
       model_attrs = [''Field'', ''Operation''] \<rparr>"

text \<open>
  \<^verbatim>\<open>class Place(CompositeType): address = Address.Field(); class Meta: db_type = 'place'\<close>:
  a composite type with a field of another composite type.
\<close>

definition place_body :: "(string \<times> attr) list" where
  "place_body = [(''address'', AField (BaseField address)), (''Meta'', AObject (Some ''place''))]"

definition place :: meta where
  "place =
     \<lparr> db_type = ''place'',
       meta_fields = [(''address'', BaseField address)],
       model_name = ''Place'',
       model_attrs = [''Field'', ''Operation''] \<rparr>"

text \<open>
  \<^verbatim>\<open>class Audit(CompositeType): _meta = ...; class Meta: db_type = 'audit'\<close>: a field that
  takes the name of the class attribute.
\<close>

definition audit_body :: "(string \<times> attr) list" where
  "audit_body = [(''_meta'', AField (column_field ''text'')), (''Meta'', AObject (Some ''audit''))]"

definition audit :: meta where
  "audit =
     \<lparr> db_type = ''audit'',
       meta_fields = [(''_meta'', column_field ''text'')],
       model_name = ''Audit'',
       model_attrs = [''Field'', ''Operation''] \<rparr>"

definition postgres :: connection where
  "postgres = \<lparr> conn_name = ''default'', is_postgres = True \<rparr>"

definition sqlite :: connection where
  "sqlite = \<lparr> conn_name = ''legacy'', is_postgres = False \<rparr>"

text \<open>
  Three environments: nothing raises; the driver does not find the type (the migration has
  not run); the driver loses the connection while it looks the type up.
\<close>

definition all_succeed :: environment where
  "all_succeed h ev = None"

definition type_missing :: environment where
  "type_missing h ev =
     (case ev of RegisterComposite c t n \<Rightarrow> Some ProgrammingError | _ \<Rightarrow> None)"

definition connection_lost :: environment where
  "connection_lost h ev =
     (case ev of RegisterComposite c t n \<Rightarrow> Some (DatabaseError ''OperationalError'') | _ \<Rightarrow> None)"

definition start :: world where
  "start = \<lparr> receivers = [], trace = [] \<rparr>"

text \<open>The world after the class statement of \<^verbatim>\<open>Address\<close>: its hook is filed.\<close>

definition address_declared_world :: world where
  "address_declared_world = \<lparr> receivers = [(DispatchUid ''address'', address)], trace = [] \<rparr>"

section \<open>Attribute dictionaries\<close>

lemma update_fresh: "k \<notin> fst ` set al \<Longrightarrow> AList.update k v al = al @ [(k, v)]"
  by (induction al) auto

lemma setattr_each_append:
  "distinct (map fst (attrs @ kvs)) \<Longrightarrow> list_all (\<lambda>(n, _). \<not> special_name n) kvs
     \<Longrightarrow> setattr_each kvs attrs = Inr (attrs @ kvs)"
proof (induction kvs arbitrary: attrs)
  case Nil
  then show ?case by simp
next
  case (Cons kv kvs)
  obtain n v where kv: "kv = (n, v)" by (cases kv)
  from Cons.prems kv have fresh: "n \<notin> fst ` set attrs" by auto
  from Cons.prems kv have "distinct (map fst ((attrs @ [(n, v)]) @ kvs))" by auto
  moreover from Cons.prems have "list_all (\<lambda>(n, _). \<not> special_name n) kvs" by simp
  ultimately have "setattr_each kvs (attrs @ [(n, v)]) = Inr ((attrs @ [(n, v)]) @ kvs)"
    by (rule Cons.IH)
  with Cons.prems kv fresh show ?case
    by (simp add: py_setattr_def update_fresh)
qed

lemma setattr_each_plain:
  "list_all (\<lambda>(n, _). \<not> special_name n) kvs \<Longrightarrow>
     \<exists>attrs'. setattr_each kvs attrs = Inr attrs'
       \<and> (\<forall>x. map_of attrs' x = (case map_of (rev kvs) x of Some v \<Rightarrow> Some v | None \<Rightarrow> map_of attrs x))
       \<and> (fst ` set kvs \<subseteq> fst ` set attrs \<longrightarrow> map fst attrs' = map fst attrs)
       \<and> fst ` set attrs' = fst ` set attrs \<union> fst ` set kvs"
proof (induction kvs arbitrary: attrs)
  case Nil
  then show ?case by simp
next
  case (Cons kv kvs)
  obtain n v where kv: "kv = (n, v)" by (cases kv)
  from Cons.prems have rest: "list_all (\<lambda>(n, _). \<not> special_name n) kvs" by simp
  from Cons.IH [OF rest, of "AList.update n v attrs"]
  obtain attrs' where r: "setattr_each kvs (AList.update n v attrs) = Inr attrs'"
    and m: "\<forall>x. map_of attrs' x = (case map_of (rev kvs) x of Some v \<Rightarrow> Some v | None \<Rightarrow> map_of (AList.update n v attrs) x)"
    and k: "fst ` set kvs \<subseteq> fst ` set (AList.update n v attrs) \<longrightarrow> map fst attrs' = map fst (AList.update n v attrs)"
    and d: "fst ` set attrs' = fst ` set (AList.update n v attrs) \<union> fst ` set kvs"
    by blast
  from Cons.prems kv r have 1: "setattr_each (kv # kvs) attrs = Inr attrs'"
    by (simp add: py_setattr_def)
  have 2: "\<forall>x. map_of attrs' x = (case map_of (rev (kv # kvs)) x of Some v \<Rightarrow> Some v | None \<Rightarrow> map_of attrs x)"
    using m kv by (auto simp: AList.update_conv' map_add_def split: option.splits)
  have 3: "fst ` set (kv # kvs) \<subseteq> fst ` set attrs \<longrightarrow> map fst attrs' = map fst attrs"
  proof
    assume sub: "fst ` set (kv # kvs) \<subseteq> fst ` set attrs"
    with kv have bound: "n \<in> fst ` set attrs" by simp
    then have keys: "map fst (AList.update n v attrs) = map fst attrs"
      by (simp add: AList.update_keys)
    from sub have "fst ` set kvs \<subseteq> fst ` set (AList.update n v attrs)"
      by (auto simp: AList.dom_update)
    with k keys show "map fst attrs' = map fst attrs" by simp
  qed
  have 4: "fst ` set attrs' = fst ` set attrs \<union> fst ` set (kv # kvs)"
    using d kv by (auto simp: AList.dom_update)
  from 1 2 3 4 show ?case by blast
qed

lemma plain_fieldsD:
  "plain_fields m \<Longrightarrow> (n, f) \<in> set (meta_fields m) \<Longrightarrow> \<not> special_name n \<and> n \<noteq> ''_meta''"
  by (auto simp: plain_fields_def plain_name_def list_all_iff)

lemma blank_names: "map fst (map (\<lambda>(name, _). (name, PNone)) fs) = map fst fs"
  by (induction fs) auto

lemma map_of_blank:
  "map_of (rev (map (\<lambda>(name, _). (name, PNone)) fs)) x = (if x \<in> fst ` set fs then Some PNone else None)"
  by (induction fs) (auto simp: map_add_def split: option.splits)

lemma unpack_zip: "map (\<lambda>((name, _), arg). (name, arg)) (zip fs args) = zip (map fst fs) args"
  by (induction fs arbitrary: args) (auto simp: zip_Cons1 split: list.splits)

lemma map_of_zip_index:
  "distinct names \<Longrightarrow> i < length names \<Longrightarrow>
     map_of (zip names args) (names ! i) = (if i < length args then Some (args ! i) else None)"
proof (induction names arbitrary: args i)
  case Nil
  then show ?case by simp
next
  case (Cons n names)
  show ?case
  proof (cases args)
    case Nil
    then show ?thesis by simp
  next
    case (Cons a args')
    show ?thesis
    proof (cases i)
      case 0
      with Cons show ?thesis by simp
    next
      case (Suc j)
      with Cons.prems have j: "j < length names" and d: "distinct names" and ne: "names ! j \<noteq> n"
        by auto
      from Cons.IH [OF d j, of args'] Suc Cons ne show ?thesis by simp
    qed
  qed
qed

lemma blank_keys: "fst ` set (map (\<lambda>(name, _). (name, PNone)) fs) = fst ` set fs"
  by (induction fs) auto

lemma init_attributes:
  assumes plain: "plain_fields m"
    and kw: "list_all (\<lambda>(n, _). \<not> special_name n) kwargs"
    and one: "args = [] \<or> kwargs = []"
  shows "\<exists>attrs. CompositeType_init m args kwargs = Inr attrs
     \<and> (\<forall>x. map_of attrs x =
           (case map_of (rev kwargs) x of
              Some v \<Rightarrow> Some v
            | None \<Rightarrow>
           (case map_of (rev (zip (map fst (meta_fields m)) args)) x of
              Some v \<Rightarrow> Some v
            | None \<Rightarrow> if x \<in> fst ` set (meta_fields m) then Some PNone else None)))
     \<and> fst ` set attrs = fst ` set (meta_fields m) \<union> fst ` set kwargs
     \<and> (distinct (map fst (meta_fields m)) \<and> kwargs = [] \<longrightarrow> map fst attrs = map fst (meta_fields m))"
proof -
  let ?fs = "meta_fields m"
  let ?blanks = "map (\<lambda>(name, _). (name, PNone)) ?fs"
  let ?pairs = "zip (map fst ?fs) args"
  let ?e = "[] :: (string \<times> pyval) list"
  have names: "\<forall>n \<in> fst ` set ?fs. \<not> special_name n \<and> n \<noteq> ''_meta''"
    using plain by (auto simp: plain_fields_def plain_name_def list_all_iff)
  have ok_blanks: "list_all (\<lambda>(n, _). \<not> special_name n) ?blanks"
    using names by (simp add: list_all_iff case_prod_unfold)
  have "set (map fst ?pairs) \<subseteq> set (map fst ?fs)"
    unfolding map_fst_zip_take by (rule set_take_subset)
  then have sub: "fst ` set ?pairs \<subseteq> fst ` set ?fs"
    by simp
  have ok_pairs: "list_all (\<lambda>(n, _). \<not> special_name n) ?pairs"
  proof -
    have "\<forall>p \<in> set ?pairs. \<not> special_name (fst p)"
      using names sub by blast
    then show ?thesis by (simp add: list_all_iff case_prod_unfold)
  qed
  from setattr_each_plain [OF ok_blanks, of ?e]
  obtain blank where b: "setattr_each ?blanks [] = Inr blank
       \<and> (\<forall>x. map_of blank x = (case map_of (rev ?blanks) x of Some v \<Rightarrow> Some v | None \<Rightarrow> map_of ?e x))
       \<and> (fst ` set ?blanks \<subseteq> fst ` set ?e \<longrightarrow> map fst blank = map fst ?e)
       \<and> fst ` set blank = fst ` set ?e \<union> fst ` set ?blanks" ..
  from b have b1: "setattr_each ?blanks [] = Inr blank" by (rule conjunct1)
  from b have b2': "\<forall>x. map_of blank x = (case map_of (rev ?blanks) x of Some v \<Rightarrow> Some v | None \<Rightarrow> map_of ?e x)"
    by (rule conjunct2 [THEN conjunct1])
  from b have b3': "fst ` set blank = fst ` set ?e \<union> fst ` set ?blanks"
    by (rule conjunct2 [THEN conjunct2, THEN conjunct2])
  have b2: "\<forall>x. map_of blank x = (if x \<in> fst ` set ?fs then Some PNone else None)"
    using b2' by (simp add: map_of_blank)
  from b3' have b3: "fst ` set blank = fst ` set ?fs"
    by (simp only: blank_keys list.set image_empty Un_empty_left)
  have b4: "distinct (map fst ?fs) \<longrightarrow> blank = ?blanks"
  proof
    assume "distinct (map fst ?fs)"
    then have "distinct (map fst (?e @ ?blanks))"
      by (simp only: blank_names append_Nil)
    from setattr_each_append [OF this ok_blanks] b1 show "blank = ?blanks"
      by simp
  qed
  from names have "''_meta'' \<notin> fst ` set ?fs" by blast
  with b2 have nometa: "map_of blank ''_meta'' = None" by simp
  from setattr_each_plain [OF ok_pairs, of blank]
  obtain unpacked where u: "setattr_each ?pairs blank = Inr unpacked
       \<and> (\<forall>x. map_of unpacked x = (case map_of (rev ?pairs) x of Some v \<Rightarrow> Some v | None \<Rightarrow> map_of blank x))
       \<and> (fst ` set ?pairs \<subseteq> fst ` set blank \<longrightarrow> map fst unpacked = map fst blank)
       \<and> fst ` set unpacked = fst ` set blank \<union> fst ` set ?pairs" ..
  from u have u1: "setattr_each ?pairs blank = Inr unpacked" by (rule conjunct1)
  from u have u2: "\<forall>x. map_of unpacked x = (case map_of (rev ?pairs) x of Some v \<Rightarrow> Some v | None \<Rightarrow> map_of blank x)"
    by (rule conjunct2 [THEN conjunct1])
  from u have u3: "fst ` set ?pairs \<subseteq> fst ` set blank \<longrightarrow> map fst unpacked = map fst blank"
    by (rule conjunct2 [THEN conjunct2, THEN conjunct1])
  from u have u4: "fst ` set unpacked = fst ` set blank \<union> fst ` set ?pairs"
    by (rule conjunct2 [THEN conjunct2, THEN conjunct2])
  from setattr_each_plain [OF kw, of unpacked]
  obtain attrs where a: "setattr_each kwargs unpacked = Inr attrs
       \<and> (\<forall>x. map_of attrs x = (case map_of (rev kwargs) x of Some v \<Rightarrow> Some v | None \<Rightarrow> map_of unpacked x))
       \<and> (fst ` set kwargs \<subseteq> fst ` set unpacked \<longrightarrow> map fst attrs = map fst unpacked)
       \<and> fst ` set attrs = fst ` set unpacked \<union> fst ` set kwargs" ..
  from a have a1: "setattr_each kwargs unpacked = Inr attrs" by (rule conjunct1)
  from a have a2: "\<forall>x. map_of attrs x = (case map_of (rev kwargs) x of Some v \<Rightarrow> Some v | None \<Rightarrow> map_of unpacked x)"
    by (rule conjunct2 [THEN conjunct1])
  from a have a4: "fst ` set attrs = fst ` set unpacked \<union> fst ` set kwargs"
    by (rule conjunct2 [THEN conjunct2, THEN conjunct2])
  have run: "CompositeType_init m args kwargs = Inr attrs"
  proof -
    have f0: "self_meta_fields m [] = Inr ?fs"
      by (simp add: self_meta_fields_def)
    have f1: "self_meta_fields m blank = Inr ?fs"
      using nometa by (simp add: self_meta_fields_def)
    from one have "\<not> (args \<noteq> [] \<and> kwargs \<noteq> [])" by blast
    then show ?thesis
      unfolding CompositeType_init_def by (simp add: f0 f1 b1 u1 a1 unpack_zip)
  qed
  have maps: "\<forall>x. map_of attrs x =
           (case map_of (rev kwargs) x of
              Some v \<Rightarrow> Some v
            | None \<Rightarrow>
           (case map_of (rev (zip (map fst ?fs) args)) x of
              Some v \<Rightarrow> Some v
            | None \<Rightarrow> if x \<in> fst ` set ?fs then Some PNone else None))"
    by (simp add: a2 u2 b2 split: option.split)
  have keys: "fst ` set attrs = fst ` set ?fs \<union> fst ` set kwargs"
    using a4 u4 b3 sub by auto
  have order: "distinct (map fst ?fs) \<and> kwargs = [] \<longrightarrow> map fst attrs = map fst ?fs"
  proof
    assume h: "distinct (map fst ?fs) \<and> kwargs = []"
    with a1 have "attrs = unpacked" by simp
    moreover from u3 sub b3 have "map fst unpacked = map fst blank" by simp
    moreover from h b4 have "blank = ?blanks" by blast
    then have "map fst blank = map fst ?fs" by (simp only: blank_names)
    ultimately show "map fst attrs = map fst ?fs" by simp
  qed
  show ?thesis
  proof (intro exI conjI)
    show "CompositeType_init m args kwargs = Inr attrs" by (rule run)
    show "\<forall>x. map_of attrs x =
           (case map_of (rev kwargs) x of
              Some v \<Rightarrow> Some v
            | None \<Rightarrow>
           (case map_of (rev (zip (map fst ?fs) args)) x of
              Some v \<Rightarrow> Some v
            | None \<Rightarrow> if x \<in> fst ` set ?fs then Some PNone else None))" by (rule maps)
    show "fst ` set attrs = fst ` set ?fs \<union> fst ` set kwargs" by (rule keys)
    show "distinct (map fst ?fs) \<and> kwargs = [] \<longrightarrow> map fst attrs = map fst ?fs" by (rule order)
  qed
qed

section \<open>Declared types\<close>

lemma map_of_rev_distinct:
  "distinct (map fst xs) \<Longrightarrow> map_of (rev xs) k = map_of xs k"
proof (induction xs)
  case Nil
  then show ?case by simp
next
  case (Cons p xs)
  obtain a b where p: "p = (a, b)" by (cases p)
  from Cons.prems p have fresh: "a \<notin> fst ` set xs" and d: "distinct (map fst xs)"
    by auto
  from fresh have none: "map_of xs a = None"
    by (simp add: map_of_eq_None_iff)
  from Cons.IH [OF d] p none show ?case
    by (simp add: map_add_def split: option.split)
qed

lemma namespace_distinct_from:
  "distinct (map fst ns) \<Longrightarrow>
     distinct (map fst (foldl (\<lambda>ns (name, v). AList.update name v ns) ns body))"
  by (induction body arbitrary: ns) (auto simp: AList.distinct_update)

lemma class_namespace_distinct: "distinct (map fst (class_namespace body))"
  unfolding class_namespace_def by (rule namespace_distinct_from) simp

lemma collect_fields_distinct:
  "collect_fields items attrs fs = Inr (attrs', fs') \<Longrightarrow>
     distinct (map fst fs @ map fst items) \<Longrightarrow> distinct (map fst fs')"
proof (induction items attrs fs rule: collect_fields.induct)
  case (1 attrs fs)
  then show ?case by simp
next
  case (2 field_name field items attrs fs)
  from "2.prems"(1) have nr: "\<not> is_related field"
    by (auto split: if_splits)
  with "2.prems"(1) have rec:
    "collect_fields items (AList.delete field_name attrs) (fs @ [(field_name, field)]) = Inr (attrs', fs')"
    by simp
  from "2.prems"(2) have "distinct (map fst (fs @ [(field_name, field)]) @ map fst items)"
    by auto
  from "2.IH" [OF nr rec this] show ?case .
next
  case (3 field_name uu items attrs fs)
  from "3.prems"(1) have rec: "collect_fields items attrs fs = Inr (attrs', fs')"
    by simp
  from "3.prems"(2) have "distinct (map fst fs @ map fst items)"
    by auto
  from "3.IH" [OF rec this] show ?case .
qed

lemma new_composite:
  assumes "CompositeTypeMeta_new name bases attrs = Inr (Composite m)"
  shows "name \<noteq> ''CompositeType'' \<and> model_name m = name
     \<and> (\<exists>attrs'. collect_fields attrs attrs [] = Inr (attrs', meta_fields m))"
  using assms unfolding CompositeTypeMeta_new_def
  by (auto split: if_splits sum.splits option.splits attr.splits prod.splits)

lemma declared_distinct:
  assumes "CompositeTypeMeta_new name bases (class_namespace body) = Inr (Composite m)"
  shows "distinct (map fst (meta_fields m))"
proof -
  from new_composite [OF assms] obtain attrs'
    where c: "collect_fields (class_namespace body) (class_namespace body) [] = Inr (attrs', meta_fields m)"
    by blast
  have "distinct (map fst ([] :: (string \<times> model_field) list) @ map fst (class_namespace body))"
    by (simp add: class_namespace_distinct)
  from collect_fields_distinct [OF c this] show ?thesis .
qed

section \<open>Construction of instances\<close>

lemma address_declared:
  "CompositeTypeMeta_new ''Address'' [] (class_namespace address_body) = Inr (Composite address)"
  by (simp add: CompositeTypeMeta_new_def class_namespace_def address_body_def address_def
      column_field_def)

lemma address_plain: "plain_fields address"
  by (simp add: plain_fields_def plain_name_def special_name_def address_def)

lemma audit_declared:
  "CompositeTypeMeta_new ''Audit'' [] (class_namespace audit_body) = Inr (Composite audit)"
  by (simp add: CompositeTypeMeta_new_def class_namespace_def audit_body_def audit_def
      column_field_def)

lemma construct_positionally:
  assumes d: "distinct (map fst (meta_fields m))"
    and plain: "plain_fields m"
  shows "\<exists>attrs. call_model m args [] = Inr (PInst (model_name m) attrs)
     \<and> map fst attrs = map fst (meta_fields m)
     \<and> (\<forall>i < length (meta_fields m).
           map_of attrs (fst (meta_fields m ! i)) = Some (if i < length args then args ! i else PNone))"
proof -
  let ?names = "map fst (meta_fields m)"
  have nokw: "list_all (\<lambda>(n, _). \<not> special_name n) ([] :: (string \<times> pyval) list)"
    by simp
  from init_attributes [OF plain nokw disjI2 [OF refl], of args]
  obtain attrs where a: "CompositeType_init m args [] = Inr attrs
     \<and> (\<forall>x. map_of attrs x =
           (case map_of (rev []) x of
              Some v \<Rightarrow> Some v
            | None \<Rightarrow>
           (case map_of (rev (zip ?names args)) x of
              Some v \<Rightarrow> Some v
            | None \<Rightarrow> if x \<in> fst ` set (meta_fields m) then Some PNone else None)))
     \<and> fst ` set attrs = fst ` set (meta_fields m) \<union> fst ` set ([] :: (string \<times> pyval) list)
     \<and> (distinct ?names \<and> ([] :: (string \<times> pyval) list) = [] \<longrightarrow> map fst attrs = ?names)"
    ..
  from a have run: "CompositeType_init m args [] = Inr attrs"
    by (rule conjunct1)
  from a have maps: "\<forall>x. map_of attrs x =
           (case map_of (rev (zip ?names args)) x of
              Some v \<Rightarrow> Some v
            | None \<Rightarrow> if x \<in> fst ` set (meta_fields m) then Some PNone else None)"
    by simp
  from a d have keys: "map fst attrs = ?names"
    by simp
  have call: "call_model m args [] = Inr (PInst (model_name m) attrs)"
    by (simp add: call_model_def run)
  have vals: "\<forall>i < length (meta_fields m).
           map_of attrs (fst (meta_fields m ! i)) = Some (if i < length args then args ! i else PNone)"
  proof (intro allI impI)
    fix i
    assume i: "i < length (meta_fields m)"
    then have nth: "fst (meta_fields m ! i) = ?names ! i" and len: "i < length ?names"
      by simp_all
    have dz: "distinct (map fst (zip ?names args))"
      unfolding map_fst_zip_take using d by (rule distinct_take)
    have look: "map_of (rev (zip ?names args)) (?names ! i) = (if i < length args then Some (args ! i) else None)"
      by (simp only: map_of_rev_distinct [OF dz] map_of_zip_index [OF d len, of args])
    have bound: "?names ! i \<in> fst ` set (meta_fields m)"
      using len by (metis nth_mem set_map)
    show "map_of attrs (fst (meta_fields m ! i)) = Some (if i < length args then args ! i else PNone)"
      unfolding nth using maps look bound by simp
  qed
  from call keys vals show ?thesis by (intro exI conjI)
qed

text \<open>
  C10 (amended). For a declared type none of whose fields is named \<^verbatim>\<open>_meta\<close> or begins with
  two underscores, construction from any number of positional values succeeds; the instance
  binds exactly the declared field names, in order; field \<open>i\<close> holds the \<open>i\<close>-th value when
  there is one and \<^verbatim>\<open>None\<close> otherwise, so values beyond the last field are ignored.
\<close>

theorem positional_construction:
  assumes decl: "CompositeTypeMeta_new name bases (class_namespace body) = Inr (Composite m)"
    and plain: "plain_fields m"
  shows "\<exists>attrs. call_model m args [] = Inr (PInst (model_name m) attrs)
     \<and> map fst attrs = map fst (meta_fields m)
     \<and> (\<forall>i < length (meta_fields m).
           map_of attrs (fst (meta_fields m ! i)) = Some (if i < length args then args ! i else PNone))"
  using declared_distinct [OF decl] plain by (rule construct_positionally)

theorem positional_construction_witness:
  "CompositeTypeMeta_new ''Address'' [] (class_namespace address_body) = Inr (Composite address)
   \<and> plain_fields address
   \<and> call_model address [PStr ''Main St''] []
       = Inr (PInst ''Address'' [(''street'', PStr ''Main St''), (''city'', PNone)])"
  using positional_construction [OF address_declared address_plain, of "[PStr ''Main St'']"]
    address_declared address_plain
  by (simp add: call_model_def CompositeType_init_def self_meta_fields_def py_setattr_def
      special_name_def address_def column_field_def)

text \<open>
  C10 as stated fails: the declared type \<^verbatim>\<open>Audit\<close> has one field, named \<^verbatim>\<open>_meta\<close>, and its
  construction from no positional value raises \<^verbatim>\<open>AttributeError\<close>.
\<close>

theorem positional_construction_counterexample:
  "CompositeTypeMeta_new ''Audit'' [] (class_namespace audit_body) = Inr (Composite audit)
   \<and> length (meta_fields audit) = 1
   \<and> call_model audit [] [] = Inl AttributeError"
  using audit_declared
  by (simp add: call_model_def CompositeType_init_def self_meta_fields_def py_setattr_def
      special_name_def audit_def column_field_def)

lemma keyword_names:
  "plain_keywords kw \<Longrightarrow>
     list_all (\<lambda>(k, _). is_str k) kw
     \<and> PStr ''self'' \<notin> set (map fst kw)
     \<and> list_all (\<lambda>(n, _). \<not> special_name n) (map (\<lambda>(k, v). (str_of k, v)) kw)"
  unfolding plain_keywords_def list_all_iff by fastforce

text \<open>
  C6 (amended). Positional together with named arguments always raise (\<^verbatim>\<open>RuntimeError\<close>
  from the body, or \<^verbatim>\<open>TypeError\<close> from the call when a keyword is not a string or is
  \<^verbatim>\<open>self\<close>). For a type none of whose fields is named \<^verbatim>\<open>_meta\<close> or begins with two
  underscores, construction from positional values only, from no values, or from named
  values whose names are strings other than \<^verbatim>\<open>self\<close> that do not begin with two underscores
  succeeds, and the instance binds every declared field.
\<close>

theorem construction_modes:
  "(args \<noteq> [] \<and> kw \<noteq> [] \<longrightarrow>
      call_model m args kw = Inl RuntimeError \<or> call_model m args kw = Inl TypeError)
   \<and> (plain_fields m \<and> (kw = [] \<or> (args = [] \<and> plain_keywords kw)) \<longrightarrow>
      (\<exists>attrs. call_model m args kw = Inr (PInst (model_name m) attrs)
         \<and> (\<forall>(name, field) \<in> set (meta_fields m). \<exists>v. map_of attrs name = Some v)))"
proof (intro conjI impI)
  assume both: "args \<noteq> [] \<and> kw \<noteq> []"
  then have "map (\<lambda>(k, v). (str_of k, v)) kw \<noteq> []" by simp
  with both have "CompositeType_init m args (map (\<lambda>(k, v). (str_of k, v)) kw) = Inl RuntimeError"
    unfolding CompositeType_init_def by simp
  then show "call_model m args kw = Inl RuntimeError \<or> call_model m args kw = Inl TypeError"
    unfolding call_model_def by simp
next
  assume h: "plain_fields m \<and> (kw = [] \<or> (args = [] \<and> plain_keywords kw))"
  let ?kwargs = "map (\<lambda>(k, v). (str_of k, v)) kw"
  from h have plain: "plain_fields m" by (rule conjunct1)
  have pk: "plain_keywords kw"
    using h by (auto simp: plain_keywords_def)
  note names = keyword_names [OF pk]
  from names have strs: "list_all (\<lambda>(k, _). is_str k) kw" by (rule conjunct1)
  from names have noself: "PStr ''self'' \<notin> set (map fst kw)" by (rule conjunct2 [THEN conjunct1])
  from names have ok: "list_all (\<lambda>(n, _). \<not> special_name n) ?kwargs" by (rule conjunct2 [THEN conjunct2])
  from h have one: "args = [] \<or> ?kwargs = []" by auto
  from init_attributes [OF plain ok one]
  obtain attrs where a: "CompositeType_init m args ?kwargs = Inr attrs
     \<and> (\<forall>x. map_of attrs x =
           (case map_of (rev ?kwargs) x of
              Some v \<Rightarrow> Some v
            | None \<Rightarrow>
           (case map_of (rev (zip (map fst (meta_fields m)) args)) x of
              Some v \<Rightarrow> Some v
            | None \<Rightarrow> if x \<in> fst ` set (meta_fields m) then Some PNone else None)))
     \<and> fst ` set attrs = fst ` set (meta_fields m) \<union> fst ` set ?kwargs
     \<and> (distinct (map fst (meta_fields m)) \<and> ?kwargs = [] \<longrightarrow> map fst attrs = map fst (meta_fields m))"
    ..
  from a have run: "CompositeType_init m args ?kwargs = Inr attrs"
    by (rule conjunct1)
  from a have keys: "fst ` set attrs = fst ` set (meta_fields m) \<union> fst ` set ?kwargs"
    by (rule conjunct2 [THEN conjunct2, THEN conjunct1])
  have call: "call_model m args kw = Inr (PInst (model_name m) attrs)"
    unfolding call_model_def using strs noself run by simp
  have bound: "\<forall>(name, field) \<in> set (meta_fields m). \<exists>v. map_of attrs name = Some v"
  proof (intro ballI, clarify)
    fix name field
    assume "(name, field) \<in> set (meta_fields m)"
    then have "name \<in> fst ` set (meta_fields m)" by force
    with keys have "name \<in> fst ` set attrs" by simp
    then have "map_of attrs name \<noteq> None" by (simp add: map_of_eq_None_iff)
    then show "\<exists>v. map_of attrs name = Some v" by blast
  qed
  from call bound
  show "\<exists>attrs. call_model m args kw = Inr (PInst (model_name m) attrs)
         \<and> (\<forall>(name, field) \<in> set (meta_fields m). \<exists>v. map_of attrs name = Some v)"
    by (intro exI conjI)
qed

theorem construction_modes_witness:
  "([PInt 1] \<noteq> [] \<and> [(PStr ''city'', PStr ''Springfield'')] \<noteq> [] \<and>
      call_model address [PInt 1] [(PStr ''city'', PStr ''Springfield'')] = Inl RuntimeError)
   \<and> (plain_fields address \<and> plain_keywords [(PStr ''city'', PStr ''Springfield'')] \<and>
      call_model address [] [(PStr ''city'', PStr ''Springfield'')]
        = Inr (PInst ''Address'' [(''street'', PNone), (''city'', PStr ''Springfield'')]))"
  using construction_modes [of "[PInt 1]" "[(PStr ''city'', PStr ''Springfield'')]" address]
    construction_modes [of "[]" "[(PStr ''city'', PStr ''Springfield'')]" address]
    address_plain
  by (simp add: call_model_def CompositeType_init_def self_meta_fields_def py_setattr_def
      special_name_def plain_keywords_def address_def column_field_def)

text \<open>
  C6 as stated fails: with the keyword \<^verbatim>\<open>self\<close> as the only argument, construction raises
  \<^verbatim>\<open>TypeError\<close>.
\<close>

theorem construction_modes_counterexample:
  "plain_fields address \<and> call_model address [] [(PStr ''self'', PInt 1)] = Inl TypeError"
  using address_plain by (simp add: call_model_def)

section \<open>Mappings\<close>

lemma kwargs_lookup:
  "list_all (\<lambda>(k, _). is_str k) d \<Longrightarrow>
     map_of (map (\<lambda>(k, v). (str_of k, v)) d) n = map_of d (PStr n)"
proof (induction d)
  case Nil
  then show ?case by simp
next
  case (Cons p d)
  obtain k v where p: "p = (k, v)" by (cases p)
  with Cons.prems obtain s where k: "k = PStr s" by (cases k) auto
  from Cons p k show ?case by auto
qed

lemma kwargs_distinct:
  "list_all (\<lambda>(k, _). is_str k) d \<Longrightarrow> distinct (map fst d) \<Longrightarrow>
     distinct (map fst (map (\<lambda>(k, v). (str_of k, v)) d))"
proof (induction d)
  case Nil
  then show ?case by simp
next
  case (Cons p d)
  obtain k v where p: "p = (k, v)" by (cases p)
  with Cons.prems obtain s where k: "k = PStr s" by (cases k) auto
  have "s \<notin> set (map fst (map (\<lambda>(k, v). (str_of k, v)) d))"
  proof
    assume "s \<in> set (map fst (map (\<lambda>(k, v). (str_of k, v)) d))"
    then have "s \<in> fst ` set (map (\<lambda>(k, v). (str_of k, v)) d)"
      by (simp only: set_map)
    then have "map_of (map (\<lambda>(k, v). (str_of k, v)) d) s \<noteq> None"
      by (simp only: map_of_eq_None_iff not_not)
    with Cons.prems(1) have "map_of d (PStr s) \<noteq> None"
      by (simp add: kwargs_lookup)
    then have "PStr s \<in> fst ` set d"
      by (simp add: map_of_eq_None_iff)
    with Cons.prems(2) p k show False by simp
  qed
  with Cons p k show ?case by simp
qed

lemma prep_attrs_first_error:
  "\<forall>(n, f) \<in> set fs. py_getattr m attrs n = Inr (g n) \<Longrightarrow>
     prep_attrs m attrs fs = first_error (map (\<lambda>(n, f). field_get_prep_value f (g n)) fs)"
proof (induction fs)
  case Nil
  then show ?case by simp
next
  case (Cons p fs)
  obtain n f where p: "p = (n, f)" by (cases p)
  from Cons.prems p have get: "py_getattr m attrs n = Inr (g n)" by simp
  from Cons.prems have "\<forall>(n, f) \<in> set fs. py_getattr m attrs n = Inr (g n)" by simp
  then have rest: "prep_attrs m attrs fs = first_error (map (\<lambda>(n, f). field_get_prep_value f (g n)) fs)"
    by (rule Cons.IH)
  show ?case
    by (cases "field_get_prep_value f (g n)") (simp_all add: p get rest)
qed

lemma prep_dict_first_error:
  "prep_dict d fs = first_error (map (\<lambda>(name, field). field_get_prep_value field (dict_get d name)) fs)"
proof (induction fs)
  case Nil
  then show ?case by simp
next
  case (Cons p fs)
  obtain n f where p: "p = (n, f)" by (cases p)
  show ?case
    by (cases "field_get_prep_value f (dict_get d n)") (simp_all add: p Cons.IH)
qed

lemma plain_mapping_keywords: "plain_mapping d \<Longrightarrow> plain_keywords d"
  unfolding plain_mapping_def plain_keywords_def plain_name_def list_all_iff by fastforce

lemma plain_mapping_no_meta: "plain_mapping d \<Longrightarrow> ''_meta'' \<notin> fst ` set (map (\<lambda>(k, v). (str_of k, v)) d)"
  unfolding plain_mapping_def plain_name_def list_all_iff by fastforce

text \<open>
  C2 (amended). For a type none of whose fields is named \<^verbatim>\<open>_meta\<close> or begins with two
  underscores, and a dict whose keys are strings other than \<^verbatim>\<open>self\<close> and \<^verbatim>\<open>_meta\<close> that
  do not begin with two underscores: \<^verbatim>\<open>to_python\<close> builds an instance, and the storage tuple
  of that instance is the tuple (or the first exception) obtained by preparing the dict's
  value for each declared field directly, in declared order. The dict branch of
  \<^verbatim>\<open>get_prep_value\<close> computes the same, for every dict.
\<close>

theorem mapping_to_storage:
  assumes plain: "plain_fields m"
    and pm: "plain_mapping d"
  shows "\<exists>attrs. BaseField_to_python m (PDict d) = Inr (PInst (model_name m) attrs)
     \<and> to_tuple m attrs = prepared_directly m d
     \<and> BaseField_get_prep_value m (PDict d) = prepared_directly m d"
proof -
  let ?kwargs = "map (\<lambda>(k, v). (str_of k, v)) d"
  let ?none = "[] :: pyval list"
  have pk: "plain_keywords d"
    using pm by (rule plain_mapping_keywords)
  note names = keyword_names [OF pk]
  from names have strs: "list_all (\<lambda>(k, _). is_str k) d" by (rule conjunct1)
  from names have noself: "PStr ''self'' \<notin> set (map fst d)" by (rule conjunct2 [THEN conjunct1])
  from names have ok: "list_all (\<lambda>(n, _). \<not> special_name n) ?kwargs" by (rule conjunct2 [THEN conjunct2])
  from init_attributes [OF plain ok disjI1 [OF refl]]
  obtain attrs where a: "CompositeType_init m ?none ?kwargs = Inr attrs
     \<and> (\<forall>x. map_of attrs x =
           (case map_of (rev ?kwargs) x of
              Some v \<Rightarrow> Some v
            | None \<Rightarrow>
           (case map_of (rev (zip (map fst (meta_fields m)) ?none)) x of
              Some v \<Rightarrow> Some v
            | None \<Rightarrow> if x \<in> fst ` set (meta_fields m) then Some PNone else None)))
     \<and> fst ` set attrs = fst ` set (meta_fields m) \<union> fst ` set ?kwargs
     \<and> (distinct (map fst (meta_fields m)) \<and> ?kwargs = [] \<longrightarrow> map fst attrs = map fst (meta_fields m))"
    ..
  from a have run: "CompositeType_init m ?none ?kwargs = Inr attrs"
    by (rule conjunct1)
  from a have maps0: "\<forall>x. map_of attrs x =
           (case map_of (rev ?kwargs) x of
              Some v \<Rightarrow> Some v
            | None \<Rightarrow>
           (case map_of (rev (zip (map fst (meta_fields m)) ?none)) x of
              Some v \<Rightarrow> Some v
            | None \<Rightarrow> if x \<in> fst ` set (meta_fields m) then Some PNone else None))"
    by (rule conjunct2 [THEN conjunct1])
  from a have keys: "fst ` set attrs = fst ` set (meta_fields m) \<union> fst ` set ?kwargs"
    by (rule conjunct2 [THEN conjunct2, THEN conjunct1])
  from pm have "distinct (map fst d)"
    unfolding plain_mapping_def by (rule conjunct1)
  with strs have dk: "distinct (map fst ?kwargs)"
    by (rule kwargs_distinct)
  have maps: "\<forall>x. map_of attrs x =
           (case map_of d (PStr x) of
              Some v \<Rightarrow> Some v
            | None \<Rightarrow> if x \<in> fst ` set (meta_fields m) then Some PNone else None)"
    using maps0 by (simp add: map_of_rev_distinct [OF dk] kwargs_lookup [OF strs] split: option.split)
  have call: "BaseField_to_python m (PDict d) = Inr (PInst (model_name m) attrs)"
    unfolding BaseField_to_python_def call_model_def using strs noself run by simp
  have "''_meta'' \<notin> fst ` set (meta_fields m)"
    using plain by (auto dest: plain_fieldsD)
  with keys plain_mapping_no_meta [OF pm] have "''_meta'' \<notin> fst ` set attrs"
    by simp
  then have "map_of attrs ''_meta'' = None"
    by (simp add: map_of_eq_None_iff)
  then have fs: "self_meta_fields m attrs = Inr (meta_fields m)"
    by (simp add: self_meta_fields_def)
  have gets: "\<forall>(n, f) \<in> set (meta_fields m). py_getattr m attrs n = Inr (dict_get d n)"
  proof (intro ballI, clarify)
    fix n f
    assume nf: "(n, f) \<in> set (meta_fields m)"
    then have mem: "n \<in> fst ` set (meta_fields m)" by force
    from plain nf have ns: "\<not> special_name n" by (auto dest: plain_fieldsD)
    from maps mem have "map_of attrs n = Some (dict_get d n)"
      by (simp add: dict_get_def split: option.split)
    with ns show "py_getattr m attrs n = Inr (dict_get d n)"
      by (simp add: py_getattr_def)
  qed
  have tup: "to_tuple m attrs = prepared_directly m d"
    unfolding to_tuple_def prepared_directly_def
    by (simp add: fs prep_attrs_first_error [OF gets])
  have direct: "BaseField_get_prep_value m (PDict d) = prepared_directly m d"
    unfolding BaseField_get_prep_value_def prepared_directly_def
    by (simp add: prep_dict_first_error)
  from call tup direct show ?thesis by (intro exI conjI)
qed

theorem mapping_to_storage_witness:
  "plain_fields address
   \<and> plain_mapping [(PStr ''city'', PStr ''Springfield''), (PStr ''zip'', PInt 1)]
   \<and> BaseField_to_python address (PDict [(PStr ''city'', PStr ''Springfield''), (PStr ''zip'', PInt 1)])
       = Inr (PInst ''Address'' [(''street'', PNone), (''city'', PStr ''Springfield''), (''zip'', PInt 1)])
   \<and> to_tuple address [(''street'', PNone), (''city'', PStr ''Springfield''), (''zip'', PInt 1)]
       = Inr (PTuple [PNone, PStr ''Springfield''])
   \<and> prepared_directly address [(PStr ''city'', PStr ''Springfield''), (PStr ''zip'', PInt 1)]
       = Inr (PTuple [PNone, PStr ''Springfield''])"
proof -
  have p: "plain_mapping [(PStr ''city'', PStr ''Springfield''), (PStr ''zip'', PInt 1)]"
    by (simp add: plain_mapping_def plain_name_def special_name_def)
  show ?thesis
    using mapping_to_storage [OF address_plain p] address_plain p
    by (simp add: BaseField_to_python_def call_model_def CompositeType_init_def
        self_meta_fields_def py_setattr_def py_getattr_def to_tuple_def prepared_directly_def
        dict_get_def special_name_def address_def column_field_def)
qed

text \<open>
  C2 as stated fails: for the dict \<^verbatim>\<open>{1: 'x'}\<close>, \<^verbatim>\<open>to_python\<close> raises \<^verbatim>\<open>TypeError\<close> (keywords
  must be strings) and builds no instance, while preparing the dict's values directly gives
  the tuple \<^verbatim>\<open>(None, None)\<close>.
\<close>

theorem mapping_to_storage_counterexample:
  "BaseField_to_python address (PDict [(PInt 1, PStr ''x'')]) = Inl TypeError
   \<and> prepared_directly address [(PInt 1, PStr ''x'')] = Inr (PTuple [PNone, PNone])"
  by (simp add: BaseField_to_python_def call_model_def prepared_directly_def dict_get_def
      address_def column_field_def)

section \<open>Storage tuples\<close>

lemma py_getattr_bound: "py_getattr m attrs n = Inr v \<Longrightarrow> map_of attrs n = Some v"
  unfolding py_getattr_def by (simp split: if_splits option.splits)

lemma self_meta_fields_Inr: "self_meta_fields m attrs = Inr fs \<Longrightarrow> fs = meta_fields m"
  unfolding self_meta_fields_def by (simp split: option.splits pyval.splits)

lemma prep_attrs_Inr:
  "prep_attrs m attrs fs = Inr ps \<Longrightarrow>
     length ps = length fs
     \<and> (\<forall>i < length fs. \<exists>v. map_of attrs (fst (fs ! i)) = Some v
            \<and> field_get_prep_value (snd (fs ! i)) v = Inr (ps ! i))"
proof (induction fs arbitrary: ps)
  case Nil
  then show ?case by simp
next
  case (Cons p fs)
  obtain n f where p: "p = (n, f)" by (cases p)
  from Cons.prems p obtain v where get: "py_getattr m attrs n = Inr v"
    by (cases "py_getattr m attrs n") simp_all
  from Cons.prems p get obtain q where prep: "field_get_prep_value f v = Inr q"
    by (cases "field_get_prep_value f v") simp_all
  from Cons.prems p get prep obtain qs where rest: "prep_attrs m attrs fs = Inr qs"
    by (cases "prep_attrs m attrs fs") simp_all
  from Cons.prems p get prep rest have ps: "ps = q # qs" by simp
  from Cons.IH [OF rest] have len: "length qs = length fs"
    and each: "\<forall>i < length fs. \<exists>v. map_of attrs (fst (fs ! i)) = Some v
            \<and> field_get_prep_value (snd (fs ! i)) v = Inr (qs ! i)"
    by simp_all
  have "\<forall>i < length (p # fs). \<exists>v. map_of attrs (fst ((p # fs) ! i)) = Some v
            \<and> field_get_prep_value (snd ((p # fs) ! i)) v = Inr (ps ! i)"
  proof (intro allI impI)
    fix i
    assume i: "i < length (p # fs)"
    show "\<exists>v. map_of attrs (fst ((p # fs) ! i)) = Some v
            \<and> field_get_prep_value (snd ((p # fs) ! i)) v = Inr (ps ! i)"
    proof (cases i)
      case 0
      with p ps prep py_getattr_bound [OF get] show ?thesis by simp
    next
      case (Suc j)
      with i each ps show ?thesis by simp
    qed
  qed
  with len ps show ?case by simp
qed

lemma place_declared:
  "CompositeTypeMeta_new ''Place'' [] (class_namespace place_body) = Inr (Composite place)"
  by (simp add: CompositeTypeMeta_new_def class_namespace_def place_body_def place_def
      BaseField_def)

text \<open>
  C1 (amended). For a declared type none of whose fields is named \<^verbatim>\<open>_meta\<close> or begins with
  two underscores, and an instance whose storage tuple can be taken: \<^verbatim>\<open>from_db_value\<close> of that
  tuple is an instance in which every declared field holds what the field's
  \<^verbatim>\<open>get_prep_value\<close> returned for the original value. So a field keeps its value exactly when
  its prepare-value function leaves that value unchanged.
\<close>

theorem storage_round_trip:
  assumes decl: "CompositeTypeMeta_new name bases (class_namespace body) = Inr (Composite m)"
    and plain: "plain_fields m"
    and tup: "to_tuple m attrs = Inr t"
  shows "\<exists>attrs'. BaseField_from_db_value m t = Inr (PInst (model_name m) attrs')
     \<and> (\<forall>(n, f) \<in> set (meta_fields m). \<exists>v p.
           map_of attrs n = Some v \<and> field_get_prep_value f v = Inr p \<and> map_of attrs' n = Some p)"
proof -
  let ?fs = "meta_fields m"
  from tup obtain fs where fs: "self_meta_fields m attrs = Inr fs"
    unfolding to_tuple_def by (cases "self_meta_fields m attrs") simp_all
  then have same: "fs = ?fs" by (rule self_meta_fields_Inr)
  from tup fs same obtain ps where ps: "prep_attrs m attrs ?fs = Inr ps"
    unfolding to_tuple_def by (cases "prep_attrs m attrs ?fs") simp_all
  from tup fs same ps have t: "t = PTuple ps"
    unfolding to_tuple_def by simp
  from prep_attrs_Inr [OF ps] have len: "length ps = length ?fs"
    and each: "\<forall>i < length ?fs. \<exists>v. map_of attrs (fst (?fs ! i)) = Some v
            \<and> field_get_prep_value (snd (?fs ! i)) v = Inr (ps ! i)"
    by simp_all
  from construct_positionally [OF declared_distinct [OF decl] plain, of ps]
  obtain attrs' where c: "call_model m ps [] = Inr (PInst (model_name m) attrs')
     \<and> map fst attrs' = map fst ?fs
     \<and> (\<forall>i < length ?fs.
           map_of attrs' (fst (?fs ! i)) = Some (if i < length ps then ps ! i else PNone))"
    ..
  from c have call: "call_model m ps [] = Inr (PInst (model_name m) attrs')"
    by (rule conjunct1)
  from c have held: "\<forall>i < length ?fs.
           map_of attrs' (fst (?fs ! i)) = Some (if i < length ps then ps ! i else PNone)"
    by (rule conjunct2 [THEN conjunct2])
  have returned: "BaseField_from_db_value m t = Inr (PInst (model_name m) attrs')"
    unfolding BaseField_from_db_value_def t using call by simp
  have kept: "\<forall>(n, f) \<in> set ?fs. \<exists>v p.
           map_of attrs n = Some v \<and> field_get_prep_value f v = Inr p \<and> map_of attrs' n = Some p"
  proof (intro ballI, clarify)
    fix n f
    assume "(n, f) \<in> set ?fs"
    then obtain i where i: "i < length ?fs" and nth: "?fs ! i = (n, f)"
      by (auto simp: in_set_conv_nth)
    from each i nth obtain v where v: "map_of attrs n = Some v"
      and p: "field_get_prep_value f v = Inr (ps ! i)"
      by fastforce
    from held i nth len have "map_of attrs' n = Some (ps ! i)"
      by fastforce
    with v p show "\<exists>v p. map_of attrs n = Some v \<and> field_get_prep_value f v = Inr p \<and> map_of attrs' n = Some p"
      by blast
  qed
  from returned kept show ?thesis by (intro exI conjI)
qed

theorem storage_round_trip_witness:
  "CompositeTypeMeta_new ''Address'' [] (class_namespace address_body) = Inr (Composite address)
   \<and> plain_fields address
   \<and> to_tuple address [(''street'', PStr ''Main St''), (''city'', PStr ''Springfield'')]
       = Inr (PTuple [PStr ''Main St'', PStr ''Springfield''])
   \<and> BaseField_from_db_value address (PTuple [PStr ''Main St'', PStr ''Springfield''])
       = Inr (PInst ''Address'' [(''street'', PStr ''Main St''), (''city'', PStr ''Springfield'')])"
proof -
  have t: "to_tuple address [(''street'', PStr ''Main St''), (''city'', PStr ''Springfield'')]
       = Inr (PTuple [PStr ''Main St'', PStr ''Springfield''])"
    by (simp add: to_tuple_def self_meta_fields_def py_getattr_def special_name_def
        address_def column_field_def)
  show ?thesis
    using storage_round_trip [OF address_declared address_plain t] address_declared address_plain t
    by (simp add: BaseField_from_db_value_def call_model_def CompositeType_init_def
        self_meta_fields_def py_setattr_def special_name_def address_def column_field_def)
qed

text \<open>
  C1 as stated fails: \<^verbatim>\<open>Place\<close> has a field of the composite type \<^verbatim>\<open>Address\<close>. An instance
  that holds an \<^verbatim>\<open>Address\<close> instance in that field comes back from its storage tuple holding
  a tuple there.
\<close>

theorem storage_round_trip_counterexample:
  "CompositeTypeMeta_new ''Place'' [] (class_namespace place_body) = Inr (Composite place)
   \<and> call_model place [PInst ''Address'' [(''street'', PStr ''Main St''), (''city'', PStr ''Springfield'')]] []
       = Inr (PInst ''Place''
           [(''address'', PInst ''Address'' [(''street'', PStr ''Main St''), (''city'', PStr ''Springfield'')])])
   \<and> to_tuple place
         [(''address'', PInst ''Address'' [(''street'', PStr ''Main St''), (''city'', PStr ''Springfield'')])]
       = Inr (PTuple [PTuple [PStr ''Main St'', PStr ''Springfield'']])
   \<and> BaseField_from_db_value place (PTuple [PTuple [PStr ''Main St'', PStr ''Springfield'']])
       = Inr (PInst ''Place'' [(''address'', PTuple [PStr ''Main St'', PStr ''Springfield''])])"
  using place_declared
  by (simp add: BaseField_from_db_value_def call_model_def CompositeType_init_def
      self_meta_fields_def py_setattr_def py_getattr_def to_tuple_def special_name_def
      place_def BaseField_def BaseField_get_prep_value_def address_def column_field_def)

section \<open>Class declarations\<close>

lemma collect_fields_error: "collect_fields items attrs fs = Inl e \<Longrightarrow> e = TypeError"
  by (induction items attrs fs rule: collect_fields.induct) (auto split: if_splits)

lemma collect_fields_related:
  "list_ex (\<lambda>(name, v). case v of AField field \<Rightarrow> is_related field | AObject _ \<Rightarrow> False) items
     \<Longrightarrow> collect_fields items attrs fs = Inl TypeError"
  by (induction items attrs fs rule: collect_fields.induct) auto

lemma collect_fields_leftover:
  "collect_fields items attrs fs = Inr (attrs', fs') \<Longrightarrow>
     map_of attrs' k = (if (\<exists>f. (k, AField f) \<in> set items) then None else map_of attrs k)"
proof (induction items attrs fs rule: collect_fields.induct)
  case (1 attrs fs)
  then show ?case by simp
next
  case (2 field_name field items attrs fs)
  from "2.prems" have nr: "\<not> is_related field"
    by (auto split: if_splits)
  with "2.prems" have rec:
    "collect_fields items (AList.delete field_name attrs) (fs @ [(field_name, field)]) = Inr (attrs', fs')"
    by simp
  from "2.IH" [OF nr rec] show ?case
    by (auto simp: AList.delete_conv')
next
  case (3 field_name uu items attrs fs)
  from "3.prems" have rec: "collect_fields items attrs fs = Inr (attrs', fs')"
    by simp
  from "3.IH" [OF rec] show ?case by auto
qed

lemma new_without_db_type:
  assumes name: "name \<noteq> ''CompositeType''"
    and none: "(case map_of attrs ''Meta'' of Some (AObject t) \<Rightarrow> t | _ \<Rightarrow> None) = None"
  shows "CompositeTypeMeta_new name bases attrs = Inl TypeError"
proof (cases "collect_fields attrs attrs []")
  case (Inl e)
  with collect_fields_error [OF Inl] name show ?thesis
    by (simp add: CompositeTypeMeta_new_def)
next
  case (Inr r)
  obtain attrs' fs where r: "r = (attrs', fs)" by (cases r)
  from collect_fields_leftover [OF Inr [unfolded r], of "''Meta''"]
  have left: "map_of attrs' ''Meta'' = (if (\<exists>f. (''Meta'', AField f) \<in> set attrs) then None else map_of attrs ''Meta'')" .
  have "map_of attrs' ''Meta'' = None \<or> map_of attrs' ''Meta'' = Some (AObject None)"
  proof (cases "map_of attrs ''Meta''")
    case None
    with left show ?thesis by simp
  next
    case (Some v)
    show ?thesis
    proof (cases v)
      case (AField f)
      with Some have "(''Meta'', AField f) \<in> set attrs" by (simp add: map_of_SomeD)
      with left show ?thesis by auto
    next
      case (AObject t)
      with Some none left show ?thesis by (simp split: if_splits)
    qed
  qed
  with Inr r name show ?thesis
    by (auto simp: CompositeTypeMeta_new_def)
qed

text \<open>
  C4 (amended). A class statement whose class is not named \<^verbatim>\<open>CompositeType\<close> and whose body
  names no database type (no \<^verbatim>\<open>Meta\<close>, or a \<^verbatim>\<open>Meta\<close> without \<^verbatim>\<open>db_type\<close>) raises \<^verbatim>\<open>TypeError\<close>
  during class creation, before any hook is connected.
\<close>

theorem missing_db_type:
  assumes "name \<noteq> ''CompositeType''"
    and "declared_db_type body = None"
  shows "class_statement name bases body w = (Inl TypeError, w)"
  using new_without_db_type [OF assms(1), of "class_namespace body" bases] assms(2)
  by (simp add: class_statement_def declared_db_type_def)

theorem missing_db_type_witness:
  "''Address'' \<noteq> ''CompositeType''
   \<and> declared_db_type [(''street'', AField (column_field ''text'')), (''Meta'', AObject None)] = None
   \<and> class_statement ''Address'' [''CompositeType'']
        [(''street'', AField (column_field ''text'')), (''Meta'', AObject None)] start
      = (Inl TypeError, start)"
proof -
  have n: "''Address'' \<noteq> ''CompositeType''" by simp
  have d: "declared_db_type [(''street'', AField (column_field ''text'')), (''Meta'', AObject None)] = None"
    by (simp add: declared_db_type_def class_namespace_def)
  from missing_db_type [OF n d] n d show ?thesis by simp
qed

text \<open>
  C4 as stated fails: a class named \<^verbatim>\<open>CompositeType\<close> is passed to \<^verbatim>\<open>type.__new__\<close> unchecked
  (line 180), so its declaration succeeds although its \<^verbatim>\<open>Meta\<close> has no \<^verbatim>\<open>db_type\<close>.
\<close>

theorem missing_db_type_counterexample:
  "declared_db_type [(''Meta'', AObject None)] = None
   \<and> class_statement ''CompositeType'' [''CompositeType''] [(''Meta'', AObject None)] start
      = (Inr (Undeclared ''CompositeType'' [(''Meta'', AObject None)]), start)"
  by (simp add: declared_db_type_def class_statement_def CompositeTypeMeta_new_def
      class_namespace_def)

text \<open>
  C5 (amended). A class statement whose class is not named \<^verbatim>\<open>CompositeType\<close> and whose
  namespace binds a name to a related field raises \<^verbatim>\<open>TypeError\<close> during class creation,
  before any hook is connected.
\<close>

theorem related_field_refused:
  assumes "name \<noteq> ''CompositeType''"
    and "declares_related_field body"
  shows "class_statement name bases body w = (Inl TypeError, w)"
  using assms collect_fields_related [of "class_namespace body" "class_namespace body" "[]"]
  by (simp add: class_statement_def CompositeTypeMeta_new_def declares_related_field_def)

theorem related_field_refused_witness:
  "''Order'' \<noteq> ''CompositeType''
   \<and> declares_related_field [(''owner'', AField foreign_key), (''Meta'', AObject (Some ''order''))]
   \<and> class_statement ''Order'' [''CompositeType'']
        [(''owner'', AField foreign_key), (''Meta'', AObject (Some ''order''))] start
      = (Inl TypeError, start)"
proof -
  have n: "''Order'' \<noteq> ''CompositeType''" by simp
  have d: "declares_related_field [(''owner'', AField foreign_key), (''Meta'', AObject (Some ''order''))]"
    by (simp add: declares_related_field_def class_namespace_def foreign_key_def)
  from related_field_refused [OF n d] n d show ?thesis by simp
qed

text \<open>
  C5 as stated fails: a class named \<^verbatim>\<open>CompositeType\<close> that declares a related field is
  created without complaint.
\<close>

theorem related_field_refused_counterexample:
  "declares_related_field [(''owner'', AField foreign_key), (''Meta'', AObject (Some ''order''))]
   \<and> class_statement ''CompositeType'' [''CompositeType'']
        [(''owner'', AField foreign_key), (''Meta'', AObject (Some ''order''))] start
      = (Inr (Undeclared ''CompositeType''
               [(''owner'', AField foreign_key), (''Meta'', AObject (Some ''order''))]), start)"
  by (simp add: declares_related_field_def class_statement_def CompositeTypeMeta_new_def
      class_namespace_def foreign_key_def)

section \<open>The migration operation\<close>

lemma external_call_trace: "trace (snd (external_call env ev w)) = trace w @ [ev]"
  by (simp add: external_call_def)

lemma column_definitions_Inr:
  "column_definitions conn fs = Inr cols \<Longrightarrow>
     length cols = length fs
     \<and> (\<forall>i < length fs. \<exists>t. field_db_type (snd (fs ! i)) conn = Inr t
            \<and> cols ! i = fst (fs ! i) @ '' '' @ percent_s t)"
proof (induction fs arbitrary: cols)
  case Nil
  then show ?case by simp
next
  case (Cons p fs)
  obtain n f where p: "p = (n, f)" by (cases p)
  from Cons.prems p obtain t where t: "field_db_type f conn = Inr t"
    by (cases "field_db_type f conn") simp_all
  from Cons.prems p t obtain cs where rest: "column_definitions conn fs = Inr cs"
    by (cases "column_definitions conn fs") simp_all
  from Cons.prems p t rest have cols: "cols = (n @ '' '' @ percent_s t) # cs" by simp
  from Cons.IH [OF rest] have len: "length cs = length fs"
    and each: "\<forall>i < length fs. \<exists>t. field_db_type (snd (fs ! i)) conn = Inr t
            \<and> cs ! i = fst (fs ! i) @ '' '' @ percent_s t"
    by simp_all
  have "\<forall>i < length (p # fs). \<exists>t. field_db_type (snd ((p # fs) ! i)) conn = Inr t
            \<and> cols ! i = fst ((p # fs) ! i) @ '' '' @ percent_s t"
  proof (intro allI impI)
    fix i
    assume i: "i < length (p # fs)"
    show "\<exists>t. field_db_type (snd ((p # fs) ! i)) conn = Inr t
            \<and> cols ! i = fst ((p # fs) ! i) @ '' '' @ percent_s t"
    proof (cases i)
      case 0
      with p cols t show ?thesis by simp
    next
      case (Suc j)
      with i each cols show ?thesis by simp
    qed
  qed
  with len cols show ?case by simp
qed

lemma database_forwards_steps:
  assumes cols: "column_definitions conn (meta_fields m) = Inr cols"
  shows "(\<exists>k \<in> {1, 2, 3}. trace (snd (database_forwards env m conn w)) =
            trace w @ take k [Execute (conn_name conn) (create_type_sql m cols),
                              RegisterComposite (model_name m) (db_type m) (conn_name conn),
                              TypeCreated (model_name m) (conn_name conn)])
     \<and> (fst (database_forwards env m conn w) = Inr () \<longrightarrow>
          trace (snd (database_forwards env m conn w)) =
            trace w @ [Execute (conn_name conn) (create_type_sql m cols),
                       RegisterComposite (model_name m) (db_type m) (conn_name conn),
                       TypeCreated (model_name m) (conn_name conn)])
     \<and> ((\<forall>h ev. env h ev = None) \<longrightarrow> fst (database_forwards env m conn w) = Inr ())"
  unfolding database_forwards_def register_composite_def external_call_def
  by (simp add: cols split: option.split)

text \<open>
  C9. The backward operation makes one external call, the execution of \<^verbatim>\<open>DROP TYPE\<close> with the
  type's database name. The forward operation makes no call when a field's \<^verbatim>\<open>db_type\<close>
  raises; otherwise its calls are, in this order, the execution of the \<^verbatim>\<open>CREATE TYPE\<close>
  statement (built from the declared fields in order, each as name, space, database type),
  the registration with the driver and the sending of the notification. It stops at the
  first call that raises; when it returns normally it has made all three, and it returns
  normally when no call raises.
\<close>

theorem migration_operation:
  "trace (snd (database_backwards env m conn w)) =
      trace w @ [Execute (conn_name conn) (''DROP TYPE '' @ db_type m)]
   \<and> (\<forall>e. column_definitions conn (meta_fields m) = Inl e \<longrightarrow>
          database_forwards env m conn w = (Inl e, w))
   \<and> (\<forall>cols. column_definitions conn (meta_fields m) = Inr cols \<longrightarrow>
          create_type_sql m cols = ''CREATE TYPE '' @ db_type m @ '' AS ('' @ join '', '' cols @ '')''
        \<and> length cols = length (meta_fields m)
        \<and> (\<forall>i < length (meta_fields m). \<exists>t.
              field_db_type (snd (meta_fields m ! i)) conn = Inr t
              \<and> cols ! i = fst (meta_fields m ! i) @ '' '' @ percent_s t)
        \<and> (\<exists>k \<in> {1, 2, 3}. trace (snd (database_forwards env m conn w)) =
              trace w @ take k [Execute (conn_name conn) (create_type_sql m cols),
                                RegisterComposite (model_name m) (db_type m) (conn_name conn),
                                TypeCreated (model_name m) (conn_name conn)])
        \<and> (fst (database_forwards env m conn w) = Inr () \<longrightarrow>
              trace (snd (database_forwards env m conn w)) =
                trace w @ [Execute (conn_name conn) (create_type_sql m cols),
                           RegisterComposite (model_name m) (db_type m) (conn_name conn),
                           TypeCreated (model_name m) (conn_name conn)])
        \<and> ((\<forall>h ev. env h ev = None) \<longrightarrow> fst (database_forwards env m conn w) = Inr ()))"
proof (intro conjI allI impI)
  show "trace (snd (database_backwards env m conn w)) =
      trace w @ [Execute (conn_name conn) (''DROP TYPE '' @ db_type m)]"
    by (simp add: database_backwards_def external_call_trace)
next
  fix e
  assume "column_definitions conn (meta_fields m) = Inl e"
  then show "database_forwards env m conn w = (Inl e, w)"
    by (simp add: database_forwards_def)
next
  fix cols
  show "create_type_sql m cols = ''CREATE TYPE '' @ db_type m @ '' AS ('' @ join '', '' cols @ '')''"
    by (simp add: create_type_sql_def)
next
  fix cols
  assume c: "column_definitions conn (meta_fields m) = Inr cols"
  from column_definitions_Inr [OF c] show "length cols = length (meta_fields m)"
    by (rule conjunct1)
next
  fix cols i
  assume c: "column_definitions conn (meta_fields m) = Inr cols"
    and i: "i < length (meta_fields m)"
  from column_definitions_Inr [OF c] i
  show "\<exists>t. field_db_type (snd (meta_fields m ! i)) conn = Inr t
              \<and> cols ! i = fst (meta_fields m ! i) @ '' '' @ percent_s t"
    by blast
next
  fix cols
  assume c: "column_definitions conn (meta_fields m) = Inr cols"
  from database_forwards_steps [OF c, of env w]
  show "\<exists>k \<in> {1, 2, 3}. trace (snd (database_forwards env m conn w)) =
              trace w @ take k [Execute (conn_name conn) (create_type_sql m cols),
                                RegisterComposite (model_name m) (db_type m) (conn_name conn),
                                TypeCreated (model_name m) (conn_name conn)]"
    by (rule conjunct1)
next
  fix cols
  assume c: "column_definitions conn (meta_fields m) = Inr cols"
    and r: "fst (database_forwards env m conn w) = Inr ()"
  from database_forwards_steps [OF c, of env w] r
  show "trace (snd (database_forwards env m conn w)) =
                trace w @ [Execute (conn_name conn) (create_type_sql m cols),
                           RegisterComposite (model_name m) (db_type m) (conn_name conn),
                           TypeCreated (model_name m) (conn_name conn)]"
    by blast
next
  fix cols
  assume c: "column_definitions conn (meta_fields m) = Inr cols"
    and q: "\<forall>h ev. env h ev = None"
  from database_forwards_steps [OF c, of env w] q
  show "fst (database_forwards env m conn w) = Inr ()"
    by blast
qed

theorem migration_operation_witness:
  "column_definitions postgres (meta_fields address) = Inr [''street text'', ''city text'']
   \<and> (\<forall>h ev. all_succeed h ev = None)
   \<and> database_forwards all_succeed address postgres start =
       (Inr (), \<lparr>receivers = [],
                 trace = [Execute ''default'' ''CREATE TYPE address AS (street text, city text)'',
                          RegisterComposite ''Address'' ''address'' ''default'',
                          TypeCreated ''Address'' ''default'']\<rparr>)
   \<and> database_backwards all_succeed address postgres start =
       (Inr (), \<lparr>receivers = [], trace = [Execute ''default'' ''DROP TYPE address'']\<rparr>)
   \<and> column_definitions sqlite (meta_fields place) = Inl RuntimeError
   \<and> database_forwards all_succeed place sqlite start = (Inl RuntimeError, start)"
  using migration_operation [of all_succeed address postgres start]
    migration_operation [of all_succeed place sqlite start]
  by (simp add: database_forwards_def database_backwards_def register_composite_def
      external_call_def create_type_sql_def all_succeed_def start_def postgres_def sqlite_def
      address_def place_def BaseField_def BaseField_db_type_def column_field_def)

text \<open>
  C3. The example of the specification, for any two fields of database type \<^verbatim>\<open>text\<close> whose
  \<^verbatim>\<open>get_prep_value\<close> returns the two strings as they are (as a text field does), any class
  name but \<^verbatim>\<open>CompositeType\<close>, and any behaviour of the database and the driver: the one
  statement the forward migration executes is the DDL of the example; construction from the
  two positional values binds \<^verbatim>\<open>street\<close> and \<^verbatim>\<open>city\<close>; the storage tuple of that instance is
  the pair of the two strings.
\<close>

theorem address_example:
  assumes "name \<noteq> ''CompositeType''"
    and "\<not> is_related street" and "\<not> is_related city"
    and "field_db_type street conn = Inr (Some ''text'')"
    and "field_db_type city conn = Inr (Some ''text'')"
    and "field_get_prep_value street (PStr ''Main St'') = Inr (PStr ''Main St'')"
    and "field_get_prep_value city (PStr ''Springfield'') = Inr (PStr ''Springfield'')"
    and m: "m = \<lparr> db_type = ''address'', meta_fields = [(''street'', street), (''city'', city)],
                  model_name = name, model_attrs = [''Field'', ''Operation''] \<rparr>"
  shows "CompositeTypeMeta_new name bases
           (class_namespace [(''street'', AField street), (''city'', AField city),
                             (''Meta'', AObject (Some ''address''))]) = Inr (Composite m)
     \<and> statements (drop (length (trace w)) (trace (snd (database_forwards env m conn w))))
         = [Execute (conn_name conn) ''CREATE TYPE address AS (street text, city text)'']
     \<and> call_model m [PStr ''Main St'', PStr ''Springfield''] []
         = Inr (PInst name [(''street'', PStr ''Main St''), (''city'', PStr ''Springfield'')])
     \<and> to_tuple m [(''street'', PStr ''Main St''), (''city'', PStr ''Springfield'')]
         = Inr (PTuple [PStr ''Main St'', PStr ''Springfield''])"
proof (intro conjI)
  show "CompositeTypeMeta_new name bases
           (class_namespace [(''street'', AField street), (''city'', AField city),
                             (''Meta'', AObject (Some ''address''))]) = Inr (Composite m)"
    using assms(1-3) by (simp add: CompositeTypeMeta_new_def class_namespace_def m)
next
  have cols: "column_definitions conn (meta_fields m) = Inr [''street text'', ''city text'']"
    using assms(4,5) by (simp add: m)
  have sql: "create_type_sql m [''street text'', ''city text'']
      = ''CREATE TYPE address AS (street text, city text)''"
    by (simp add: create_type_sql_def m)
  from database_forwards_steps [OF cols, of env w]
  obtain k where k: "k \<in> {1, 2, 3}"
    and t: "trace (snd (database_forwards env m conn w)) =
            trace w @ take k [Execute (conn_name conn) (create_type_sql m [''street text'', ''city text'']),
                              RegisterComposite (model_name m) (db_type m) (conn_name conn),
                              TypeCreated (model_name m) (conn_name conn)]"
    by blast
  from k have "k = 1 \<or> k = 2 \<or> k = 3" by simp
  then show "statements (drop (length (trace w)) (trace (snd (database_forwards env m conn w))))
         = [Execute (conn_name conn) ''CREATE TYPE address AS (street text, city text)'']"
    unfolding t sql by (auto simp: statements_def numeral_2_eq_2 numeral_3_eq_3)
next
  show "call_model m [PStr ''Main St'', PStr ''Springfield''] []
         = Inr (PInst name [(''street'', PStr ''Main St''), (''city'', PStr ''Springfield'')])"
    by (simp add: call_model_def CompositeType_init_def self_meta_fields_def py_setattr_def
        special_name_def m)
next
  show "to_tuple m [(''street'', PStr ''Main St''), (''city'', PStr ''Springfield'')]
         = Inr (PTuple [PStr ''Main St'', PStr ''Springfield''])"
    using assms(6,7)
    by (simp add: to_tuple_def self_meta_fields_def py_getattr_def special_name_def m)
qed

theorem address_example_witness:
  "''Address'' \<noteq> ''CompositeType''
   \<and> \<not> is_related (column_field ''text'')
   \<and> field_db_type (column_field ''text'') postgres = Inr (Some ''text'')
   \<and> field_get_prep_value (column_field ''text'') (PStr ''Main St'') = Inr (PStr ''Main St'')
   \<and> field_get_prep_value (column_field ''text'') (PStr ''Springfield'') = Inr (PStr ''Springfield'')
   \<and> CompositeTypeMeta_new ''Address'' [] (class_namespace address_body) = Inr (Composite address)
   \<and> statements (drop (length (trace start)) (trace (snd (database_forwards type_missing address postgres start))))
       = [Execute ''default'' ''CREATE TYPE address AS (street text, city text)'']
   \<and> call_model address [PStr ''Main St'', PStr ''Springfield''] []
       = Inr (PInst ''Address'' [(''street'', PStr ''Main St''), (''city'', PStr ''Springfield'')])
   \<and> to_tuple address [(''street'', PStr ''Main St''), (''city'', PStr ''Springfield'')]
       = Inr (PTuple [PStr ''Main St'', PStr ''Springfield''])"
proof -
  have n: "''Address'' \<noteq> ''CompositeType''" by simp
  have r: "\<not> is_related (column_field ''text'')" by (simp add: column_field_def)
  have t: "field_db_type (column_field ''text'') postgres = Inr (Some ''text'')"
    by (simp add: column_field_def)
  have p1: "field_get_prep_value (column_field ''text'') (PStr ''Main St'') = Inr (PStr ''Main St'')"
    by (simp add: column_field_def)
  have p2: "field_get_prep_value (column_field ''text'') (PStr ''Springfield'') = Inr (PStr ''Springfield'')"
    by (simp add: column_field_def)
  have m: "address = \<lparr> db_type = ''address'',
       meta_fields = [(''street'', column_field ''text''), (''city'', column_field ''text'')],
       model_name = ''Address'', model_attrs = [''Field'', ''Operation''] \<rparr>"
    by (simp add: address_def)
  from address_example [OF n r r t t p1 p2 m, of "[]" start type_missing] n r t p1 p2
  show ?thesis
    by (simp add: address_body_def postgres_def)
qed

text \<open>
  C7. When the connection is a PostgreSQL one and the driver raises \<^verbatim>\<open>ProgrammingError\<close> at
  the registration, the hook returns normally; what it has done by then is the registration
  attempt followed by one warning in the log.
\<close>

theorem registration_before_migration:
  assumes "is_postgres conn"
    and "env (trace w) (RegisterComposite (model_name m) (db_type m) (conn_name conn))
           = Some ProgrammingError"
  shows "fst (database_connected env m conn w) = Inr ()
     \<and> trace (snd (database_connected env m conn w)) =
         trace w @ [RegisterComposite (model_name m) (db_type m) (conn_name conn),
                    LogWarning warning_text]"
  using assms
  by (simp add: database_connected_def register_composite_def external_call_def
      Signal_disconnect_def)

theorem registration_before_migration_witness:
  "is_postgres postgres
   \<and> type_missing (trace start) (RegisterComposite (model_name address) (db_type address) (conn_name postgres))
       = Some ProgrammingError
   \<and> fst (database_connected type_missing address postgres start) = Inr ()
   \<and> trace (snd (database_connected type_missing address postgres start)) =
       [RegisterComposite ''Address'' ''address'' ''default'', LogWarning warning_text]"
proof -
  have p: "is_postgres postgres" by (simp add: postgres_def)
  have e: "type_missing (trace start)
       (RegisterComposite (model_name address) (db_type address) (conn_name postgres))
       = Some ProgrammingError"
    by (simp add: type_missing_def)
  from registration_before_migration [where conn = postgres and env = type_missing and w = start and m = address, OF p e] p e show ?thesis
    by (simp add: start_def address_def postgres_def)
qed

section \<open>The first-connection hook\<close>

lemma delete_first_subset: "set (delete_first k rs) \<subseteq> set rs"
  by (induction rs) (auto split: if_splits)

lemma delete_first_absent:
  "distinct (map fst rs) \<Longrightarrow> k \<notin> fst ` set (delete_first k rs)"
proof (induction rs)
  case Nil
  then show ?case by simp
next
  case (Cons r rs)
  obtain k' m where r: "r = (k', m)" by (cases r)
  from Cons.prems r have fresh: "k' \<notin> fst ` set rs" and d: "distinct (map fst rs)"
    by auto
  show ?case
  proof (cases "k' = k")
    case True
    with fresh r show ?thesis by simp
  next
    case False
    with Cons.IH [OF d] r show ?thesis by simp
  qed
qed

lemma hook_outcome:
  assumes "only_programming_errors env"
  shows "fst (database_connected env m conn w) = Inr ()
     \<and> receivers (snd (database_connected env m conn w))
         = delete_first (lookup_key m (db_type m)) (receivers w)
     \<and> registrations m' (trace (snd (database_connected env m conn w)))
         = registrations m' (trace w)
           @ (if is_postgres conn \<and> model_name m = model_name m' \<and> db_type m = db_type m'
              then [RegisterComposite (model_name m) (db_type m) (conn_name conn)] else [])"
proof -
  let ?ev = "RegisterComposite (model_name m) (db_type m) (conn_name conn)"
  from assms have "env (trace w) ?ev = None \<or> env (trace w) ?ev = Some ProgrammingError"
    unfolding only_programming_errors_def by blast
  then show ?thesis
    by (auto simp: database_connected_def register_composite_def external_call_def
        Signal_disconnect_def registrations_def)
qed

lemma call_receivers_once:
  assumes benign: "only_programming_errors env"
  shows "hooks_filed rs \<Longrightarrow> receivers w = rs \<Longrightarrow>
     fst (call_receivers env conn rs w) = Inr ()
     \<and> receivers (snd (call_receivers env conn rs w)) = []
     \<and> length (registrations m (trace (snd (call_receivers env conn rs w))))
         \<le> length (registrations m (trace w))
           + (if lookup_key m (db_type m) \<in> fst ` set rs then 1 else 0)"
proof (induction rs arbitrary: w)
  case Nil
  then show ?case by simp
next
  case (Cons r rs)
  obtain k m' where r: "r = (k, m')" by (cases r)
  let ?w' = "snd (database_connected env m' conn w)"
  from Cons.prems(1) r have k: "k = lookup_key m' (db_type m')"
    and fresh: "k \<notin> fst ` set rs"
    and filed: "hooks_filed rs"
    by (auto simp: hooks_filed_def)
  note out = hook_outcome [OF benign, of m' conn w m]
  from out have ok: "fst (database_connected env m' conn w) = Inr ()"
    by (rule conjunct1)
  from out have "receivers ?w' = delete_first (lookup_key m' (db_type m')) (receivers w)"
    by (rule conjunct2 [THEN conjunct1])
  with Cons.prems(2) r k have rest: "receivers ?w' = rs"
    by simp
  from out have regs: "registrations m (trace ?w')
         = registrations m (trace w)
           @ (if is_postgres conn \<and> model_name m' = model_name m \<and> db_type m' = db_type m
              then [RegisterComposite (model_name m') (db_type m') (conn_name conn)] else [])"
    by (rule conjunct2 [THEN conjunct2])
  note ih = Cons.IH [OF filed rest]
  from ih have ih1: "fst (call_receivers env conn rs ?w') = Inr ()"
    by (rule conjunct1)
  from ih have ih2: "receivers (snd (call_receivers env conn rs ?w')) = []"
    by (rule conjunct2 [THEN conjunct1])
  from ih have ih3: "length (registrations m (trace (snd (call_receivers env conn rs ?w'))))
         \<le> length (registrations m (trace ?w'))
           + (if lookup_key m (db_type m) \<in> fst ` set rs then 1 else 0)"
    by (rule conjunct2 [THEN conjunct2])
  obtain res w1 where run: "database_connected env m' conn w = (res, w1)"
    by (cases "database_connected env m' conn w")
  with ok have "res = Inr ()" by simp
  with run have step: "call_receivers env conn (r # rs) w = call_receivers env conn rs ?w'"
    by (simp add: r)
  have count: "length (registrations m (trace (snd (call_receivers env conn rs ?w'))))
         \<le> length (registrations m (trace w))
           + (if lookup_key m (db_type m) \<in> fst ` set (r # rs) then 1 else 0)"
  proof (cases "model_name m' = model_name m \<and> db_type m' = db_type m")
    case True
    then have key: "lookup_key m (db_type m) = k"
      using k by (simp add: lookup_key_def)
    from regs have one: "length (registrations m (trace ?w')) \<le> length (registrations m (trace w)) + 1"
      by (simp split: if_splits)
    from key fresh ih3 have "length (registrations m (trace (snd (call_receivers env conn rs ?w'))))
         \<le> length (registrations m (trace ?w'))"
      by simp
    moreover from key r have "lookup_key m (db_type m) \<in> fst ` set (r # rs)"
      by simp
    ultimately show ?thesis using one by simp
  next
    case False
    with regs have "registrations m (trace ?w') = registrations m (trace w)" by auto
    with ih3 show ?thesis by (auto split: if_splits)
  qed
  from ih1 ih2 count show ?case unfolding step by simp
qed

lemma new_connections_once:
  assumes benign: "only_programming_errors env"
  shows "hooks_filed (receivers w) \<Longrightarrow>
     length (registrations m (trace (new_connections env conns w)))
       \<le> length (registrations m (trace w))
         + (if lookup_key m (db_type m) \<in> fst ` set (receivers w) then 1 else 0)"
proof (induction conns arbitrary: w)
  case Nil
  then show ?case by simp
next
  case (Cons conn conns)
  let ?w' = "snd (connection_created_send env conn w)"
  note sent = call_receivers_once [OF benign Cons.prems refl, of conn m]
  from sent have none: "receivers ?w' = []"
    unfolding connection_created_send_def by (rule conjunct2 [THEN conjunct1])
  from sent have first: "length (registrations m (trace ?w'))
         \<le> length (registrations m (trace w))
           + (if lookup_key m (db_type m) \<in> fst ` set (receivers w) then 1 else 0)"
    unfolding connection_created_send_def by (rule conjunct2 [THEN conjunct2])
  have "hooks_filed (receivers ?w')"
    by (simp add: none hooks_filed_def)
  from Cons.IH [OF this] none
  have "length (registrations m (trace (new_connections env conns ?w')))
         \<le> length (registrations m (trace ?w'))"
    by simp
  with first show ?case by simp
qed

lemma class_statement_files_hook:
  "hooks_filed (receivers w) \<Longrightarrow> hooks_filed (receivers (snd (class_statement name bases body w)))"
proof (cases "CompositeTypeMeta_new name bases (class_namespace body)")
  case (Inl e)
  assume "hooks_filed (receivers w)"
  with Inl show ?thesis by (simp add: class_statement_def)
next
  case (Inr cls)
  assume filed: "hooks_filed (receivers w)"
  show ?thesis
  proof (cases cls)
    case (Undeclared n a)
    with Inr filed show ?thesis by (simp add: class_statement_def)
  next
    case (Composite m)
    with Inr filed show ?thesis
      by (auto simp: class_statement_def Signal_connect_def hooks_filed_def)
  qed
qed

lemma address_declared_statement:
  "class_statement ''Address'' [''CompositeType''] address_body start
     = (Inr (Composite address), address_declared_world)"
  by (simp add: class_statement_def CompositeTypeMeta_new_def class_namespace_def
      address_body_def address_def column_field_def Signal_connect_def lookup_key_def
      start_def address_declared_world_def)

lemma address_world_filed: "hooks_filed (receivers address_declared_world)"
  by (simp add: hooks_filed_def address_declared_world_def lookup_key_def address_def)

lemma type_missing_benign: "only_programming_errors type_missing"
  by (simp add: only_programming_errors_def type_missing_def split: event.split)

text \<open>
  C8 (amended). When an external call either succeeds or raises the driver's
  \<^verbatim>\<open>ProgrammingError\<close>, the hook returns normally and is no longer filed after its invocation,
  whether the registration succeeded, failed with that error, or was not attempted because
  the connection is not a PostgreSQL one; and over any sequence of new connections at most
  one registration of a declared type is attempted. When the registration raises any other
  exception, the hook lets it through and the receivers stay as they were.
\<close>

theorem hook_runs_once:
  "(only_programming_errors env \<and> hooks_filed (receivers w) \<longrightarrow>
      fst (database_connected env m conn w) = Inr ()
      \<and> lookup_key m (db_type m) \<notin> fst ` set (receivers (snd (database_connected env m conn w)))
      \<and> length (registrations m (trace (new_connections env conns w)))
          \<le> length (registrations m (trace w)) + 1)
   \<and> (is_postgres conn
        \<and> env (trace w) (RegisterComposite (model_name m) (db_type m) (conn_name conn)) = Some e
        \<and> e \<noteq> ProgrammingError \<longrightarrow>
      fst (database_connected env m conn w) = Inl e
      \<and> receivers (snd (database_connected env m conn w)) = receivers w)"
proof (intro conjI impI)
  assume h: "only_programming_errors env \<and> hooks_filed (receivers w)"
  then have benign: "only_programming_errors env" and filed: "hooks_filed (receivers w)"
    by simp_all
  note out = hook_outcome [OF benign, of m conn w m]
  from out show "fst (database_connected env m conn w) = Inr ()"
    by (rule conjunct1)
  from out have "receivers (snd (database_connected env m conn w))
         = delete_first (lookup_key m (db_type m)) (receivers w)"
    by (rule conjunct2 [THEN conjunct1])
  moreover from filed have "distinct (map fst (receivers w))"
    by (simp add: hooks_filed_def)
  ultimately show "lookup_key m (db_type m) \<notin> fst ` set (receivers (snd (database_connected env m conn w)))"
    by (simp add: delete_first_absent)
  from new_connections_once [OF benign filed, of m conns]
  show "length (registrations m (trace (new_connections env conns w)))
         \<le> length (registrations m (trace w)) + 1"
    by (simp split: if_splits)
next
  assume h: "is_postgres conn
        \<and> env (trace w) (RegisterComposite (model_name m) (db_type m) (conn_name conn)) = Some e
        \<and> e \<noteq> ProgrammingError"
  then show "fst (database_connected env m conn w) = Inl e"
    by (cases e) (simp_all add: database_connected_def register_composite_def external_call_def)
next
  assume h: "is_postgres conn
        \<and> env (trace w) (RegisterComposite (model_name m) (db_type m) (conn_name conn)) = Some e
        \<and> e \<noteq> ProgrammingError"
  then show "receivers (snd (database_connected env m conn w)) = receivers w"
    by (cases e) (simp_all add: database_connected_def register_composite_def external_call_def)
qed

theorem hook_runs_once_witness:
  "only_programming_errors type_missing
   \<and> hooks_filed (receivers address_declared_world)
   \<and> fst (database_connected type_missing address postgres address_declared_world) = Inr ()
   \<and> receivers (snd (database_connected type_missing address postgres address_declared_world)) = []
   \<and> registrations address (trace (new_connections type_missing [postgres, sqlite, postgres] address_declared_world))
       = [RegisterComposite ''Address'' ''address'' ''default'']
   \<and> is_postgres postgres
   \<and> connection_lost (trace start) (RegisterComposite (model_name address) (db_type address) (conn_name postgres))
       = Some (DatabaseError ''OperationalError'')
   \<and> DatabaseError ''OperationalError'' \<noteq> ProgrammingError
   \<and> database_connected connection_lost address postgres start
       = (Inl (DatabaseError ''OperationalError''),
          \<lparr>receivers = [], trace = [RegisterComposite ''Address'' ''address'' ''default'']\<rparr>)"
  using hook_runs_once [of type_missing address_declared_world address postgres
                          "[postgres, sqlite, postgres]" "DatabaseError ''OperationalError''"]
    hook_runs_once [of connection_lost start address postgres "[]" "DatabaseError ''OperationalError''"]
    type_missing_benign address_world_filed
  by (simp add: database_connected_def register_composite_def external_call_def
      Signal_disconnect_def connection_created_send_def registrations_def lookup_key_def
      type_missing_def connection_lost_def address_declared_world_def start_def postgres_def
      sqlite_def address_def)

text \<open>
  C8 as stated fails: when the driver raises another exception (here it loses the
  connection), the hook lets it through and stays filed, and the next new connection makes
  a second registration attempt.
\<close>

theorem hook_runs_once_counterexample:
  "class_statement ''Address'' [''CompositeType''] address_body start
      = (Inr (Composite address), address_declared_world)
   \<and> fst (database_connected connection_lost address postgres address_declared_world)
      = Inl (DatabaseError ''OperationalError'')
   \<and> map fst (receivers (snd (database_connected connection_lost address postgres address_declared_world)))
      = [DispatchUid ''address'']
   \<and> registrations address (trace (new_connections connection_lost [postgres, postgres] address_declared_world))
      = [RegisterComposite ''Address'' ''address'' ''default'',
         RegisterComposite ''Address'' ''address'' ''default'']"
  using address_declared_statement
  by (simp add: database_connected_def register_composite_def external_call_def
      connection_created_send_def registrations_def connection_lost_def
      address_declared_world_def postgres_def address_def)

end
